theory Spec2Isabelle
  imports Main
begin

section \<open>JavaScript values\<close>

text \<open>
  The document under edit and every plain value that travels through the visitor
  (\<^verbatim>\<open>packages/ui-concerto/src/reactformvisitor.js\<close>) are JavaScript values.
  Numbers are the integers that occur as array indices and in documents.
\<close>

datatype jsval =
    JUndefined
  | JNull
  | JBool bool
  | JNum int
  | JStr string
  | JArr "jsval list"
  | JObj "(string \<times> jsval) list"

text \<open>The truthiness test of \<^verbatim>\<open>if (v)\<close>, \<^verbatim>\<open>!v\<close>, \<^verbatim>\<open>a || b\<close> and \<^verbatim>\<open>a && b\<close>.\<close>

fun truthy :: "jsval \<Rightarrow> bool" where
  "truthy JUndefined = False"
| "truthy JNull = False"
| "truthy (JBool b) = b"
| "truthy (JNum n) = (n \<noteq> 0)"
| "truthy (JStr s) = (s \<noteq> [])"
| "truthy (JArr _) = True"
| "truthy (JObj _) = True"

text \<open>Decimal rendering of an array index, as a template literal \<^verbatim>\<open>${index}\<close> prints it.\<close>

definition digit :: "nat \<Rightarrow> char" where
  "digit d = ''0123456789'' ! d"

fun show_nat :: "nat \<Rightarrow> string" where
  "show_nat n = (if n < 10 then [digit n] else show_nat (n div 10) @ [digit (n mod 10)])"

declare show_nat.simps [simp del]

text \<open>\<^verbatim>\<open>String.prototype.toLowerCase\<close> on the ASCII letters of a declaration name.\<close>

definition lower_char :: "char \<Rightarrow> char" where
  "lower_char c =
     (if (65::nat) \<le> of_char c \<and> of_char c \<le> (90::nat)
      then char_of (of_char c + (32::nat)) else c)"

definition toLowerCase :: "string \<Rightarrow> string" where
  "toLowerCase s = map lower_char s"

section \<open>The schema: what the model-introspection library exposes\<close>

record decorator =
  decoratorName :: string
  getArguments :: "jsval list"

text \<open>
  A \<^verbatim>\<open>Property\<close> of the introspection library; \<^verbatim>\<open>Field\<close> and
  \<^verbatim>\<open>RelationshipDeclaration\<close> are its two subclasses, and an enumeration literal
  is a property of which only the name is read.
\<close>

record property =
  getName :: string
  getFullyQualifiedName :: string
  getType :: string
  getFullyQualifiedTypeName :: string
  getNamespace :: string
  isArray :: bool
  isOptional :: bool
  getDecorators :: "decorator list"

definition primitiveTypes :: "string list" where
  "primitiveTypes = [''Boolean'', ''String'', ''DateTime'', ''Double'', ''Integer'', ''Long'']"

definition isPrimitive :: "property \<Rightarrow> bool" where
  "isPrimitive p = (getType p \<in> set primitiveTypes)"

text \<open>\<^verbatim>\<open>property.getDecorator(name)\<close>: the decorator of that name, or null.\<close>

definition getDecorator :: "property \<Rightarrow> string \<Rightarrow> decorator option" where
  "getDecorator p n = find (\<lambda>d. decoratorName d = n) (getDecorators p)"

datatype property_node =
    FieldDecl property
  | RelationshipDecl property

fun property_of :: "property_node \<Rightarrow> property" where
  "property_of (FieldDecl p) = p"
| "property_of (RelationshipDecl p) = p"

record enumdecl =
  enumName :: string
  enumFullyQualifiedName :: string
  enumProperties :: "property list"

record classdecl =
  className :: string
  classFullyQualifiedName :: string
  isAbstract :: bool
  getIdentifierFieldName :: "string option"
  getProperties :: "property_node list"

text \<open>\<^verbatim>\<open>classDeclaration.getProperty(name)\<close>: the property of that name, or null.\<close>

definition getProperty :: "classdecl \<Rightarrow> string \<Rightarrow> property option" where
  "getProperty c n = find (\<lambda>p. getName p = n) (map property_of (getProperties c))"

datatype decl =
    DEnum enumdecl
  | DClass classdecl

text \<open>
  What \<^verbatim>\<open>visit\<close> can be handed: the four node classes it tests with
  \<^verbatim>\<open>instanceof\<close> (an \<^verbatim>\<open>EnumDeclaration\<close> is tested first, being a
  \<^verbatim>\<open>ClassDeclaration\<close> too), or any other JavaScript value.
\<close>

datatype thing =
    EnumDeclaration enumdecl
  | ClassDeclaration classdecl
  | Field property
  | RelationshipDeclaration property
  | Other jsval

fun thing_of_declaration :: "decl \<Rightarrow> thing" where
  "thing_of_declaration (DEnum e) = EnumDeclaration e"
| "thing_of_declaration (DClass c) = ClassDeclaration c"

fun thing_of_property :: "property_node \<Rightarrow> thing" where
  "thing_of_property (FieldDecl p) = Field p"
| "thing_of_property (RelationshipDecl p) = RelationshipDeclaration p"

section \<open>The traversal context\<close>

datatype segment = Name string | Index nat

datatype handler = NoHandler | Handler string

datatype writer = Writer "string list"

definition new_Writer :: writer where
  "new_Writer = Writer []"

record selectOption =
  optValue :: string
  optText :: string

text \<open>
  The \<^verbatim>\<open>parameters\<close> object. An absent flag reads as \<open>False\<close>, an absent
  \<^verbatim>\<open>fileWriter\<close>, \<^verbatim>\<open>hiddenFields\<close> or \<^verbatim>\<open>customSelectors\<close> as \<open>None\<close>.
  The registry \<^verbatim>\<open>customSelectors\<close> is read by its own keys only.
\<close>

record parameters =
  fileWriter :: "writer option"
  hideIdentifiers :: bool
  hiddenFields :: "string list option"
  skipLabel :: bool
  disabled :: bool
  textOnly :: bool
  checkboxStyle :: jsval
  customSelectors :: "(string \<times> selectOption list) list option"
  stack :: "segment list"
  json :: jsval
  modelManager :: "(string \<times> decl) list"
  includeOptionalFields :: bool
  includeSampleData :: bool
  addElement :: handler
  removeElement :: handler
  onFieldValueChange :: handler
  relationshipProvider :: handler

text \<open>\<^verbatim>\<open>Array.prototype.push\<close> and \<^verbatim>\<open>pop\<close> on the path stack (pop of an empty array is a no-op).\<close>

definition push :: "segment \<Rightarrow> parameters \<Rightarrow> parameters" where
  "push s ctx = ctx\<lparr>stack := stack ctx @ [s]\<rparr>"

definition pop :: "parameters \<Rightarrow> parameters" where
  "pop ctx = ctx\<lparr>stack := butlast (stack ctx)\<rparr>"

section \<open>Paths into the document\<close>

text \<open>
  Modelled from the spec: \<^verbatim>\<open>pathToString\<close> of \<^verbatim>\<open>./utilities\<close>, which is not part
  of the sources at hand. The spec describes a dotted/indexed path syntax in which the
  entry \<open>i\<close> of the array at path \<open>p\<close> has the key \<open>p[i]\<close>.
\<close>

definition appendSegment :: "string \<Rightarrow> segment \<Rightarrow> string" where
  "appendSegment acc seg =
     (case seg of
        Index i \<Rightarrow> acc @ ''['' @ show_nat i @ '']''
      | Name n \<Rightarrow> (if acc = [] then n else acc @ ''.'' @ n))"

definition pathToString :: "segment list \<Rightarrow> string" where
  "pathToString path = foldl appendSegment [] path"

text \<open>
  \<^verbatim>\<open>get\<close> of \<^verbatim>\<open>lodash.get\<close> on a document of objects and arrays: the key is split
  at dots and brackets, the document is walked key by key, and a walk that meets
  \<^verbatim>\<open>null\<close> or \<^verbatim>\<open>undefined\<close> before the last key gives \<^verbatim>\<open>undefined\<close>.
\<close>

fun splitKey :: "string \<Rightarrow> string \<Rightarrow> bool \<Rightarrow> string list" where
  "splitKey [] cur closed = (if closed \<and> cur = [] then [] else [cur])"
| "splitKey (c # cs) cur closed =
     (if c = CHR ''.'' then
        (if closed \<and> cur = [] then splitKey cs [] False else cur # splitKey cs [] False)
      else if c = CHR ''['' then
        (if cur = [] then splitKey cs [] False else cur # splitKey cs [] False)
      else if c = CHR '']'' then cur # splitKey cs [] True
      else splitKey cs (cur @ [c]) False)"

definition is_digit :: "char \<Rightarrow> bool" where
  "is_digit c = ((48::nat) \<le> of_char c \<and> of_char c \<le> (57::nat))"

definition index_of :: "string \<Rightarrow> nat option" where
  "index_of s =
     (if s \<noteq> [] \<and> list_all is_digit s then
        (let n = foldl (\<lambda>a c. 10 * a + (of_char c - 48)) (0::nat) s
         in if show_nat n = s then Some n else None)
      else None)"

fun getKey :: "jsval \<Rightarrow> string \<Rightarrow> jsval" where
  "getKey (JObj kvs) k = (case map_of kvs k of Some v \<Rightarrow> v | None \<Rightarrow> JUndefined)"
| "getKey (JArr vs) k =
     (case index_of k of
        Some i \<Rightarrow> (if i < length vs then vs ! i else JUndefined)
      | None \<Rightarrow> JUndefined)"
| "getKey _ k = JUndefined"

fun baseGet :: "jsval \<Rightarrow> string list \<Rightarrow> jsval" where
  "baseGet obj [] = obj"
| "baseGet JNull (k # ks) = JUndefined"
| "baseGet JUndefined (k # ks) = JUndefined"
| "baseGet obj (k # ks) = baseGet (getKey obj k) ks"

definition get :: "jsval \<Rightarrow> string \<Rightarrow> jsval" where
  "get obj key = baseGet obj (splitKey key [] False)"

section \<open>The element tree\<close>

datatype component =
    MonetaryAmount | Duration | Div
  | ConcertoDropdown | ConcertoArray | ConcertoArrayElement
  | ConcertoCheckbox | ConcertoDateTime | ConcertoInput
  | FormField | ConcertoLabel | ConcertoRelationship

record dropdownOption =
  ddKey :: string
  ddValue :: string
  ddText :: string

text \<open>\<^verbatim>\<open>newResource.toURI()\<close> of the introspection library.\<close>

record resource =
  resNamespace :: string
  resType :: string
  resIdentifier :: string

definition toURI :: "resource \<Rightarrow> string" where
  "toURI r = ''resource:'' @ resNamespace r @ ''.'' @ resType r @ ''#'' @ resIdentifier r"

text \<open>
  A prop of an element. The two closures the visitor builds for the add affordance are
  kept as data: \<open>PAddDefault h field\<close> is
  \<^verbatim>\<open>(e, id) => addElement(e, id, getDefaultValue(field, parameters))\<close> and
  \<open>PAddURI h r\<close> is \<^verbatim>\<open>(e, id) => addElement(e, id, newResource.toURI())\<close>,
  with \<open>h\<close> the context's \<^verbatim>\<open>addElement\<close>.
\<close>

datatype propval =
    PVal jsval
  | PProperty property
  | PEnum enumdecl
  | PHandler handler
  | PAddDefault handler property
  | PAddURI handler resource
  | POptions "dropdownOption list"

type_synonym props = "(string \<times> propval) list"

text \<open>Props are written in source order; a later entry of the same name wins, as in JSX.\<close>

definition lookupProp :: "props \<Rightarrow> string \<Rightarrow> propval option" where
  "lookupProp ps k = map_of (rev ps) k"

definition prop_or_undefined :: "props \<Rightarrow> string \<Rightarrow> propval" where
  "prop_or_undefined ps k = (case lookupProp ps k of Some v \<Rightarrow> v | None \<Rightarrow> PVal JUndefined)"

text \<open>
  A rendered tree: a plain value (\<^verbatim>\<open>null\<close> above all), the array a
  \<^verbatim>\<open>map\<close> returns, or an element with its component, key, props and children.
\<close>

datatype element =
    Value jsval
  | Elements "element list"
  | Element component jsval props "element list"

section \<open>Outcomes\<close>

datatype error =
    UnrecognisedType jsval
  | CustomSelectorNotFound string
  | TypeError string
  | TypeNotFound string
  | HelperError string

text \<open>
  A call returns a value, or throws; both leave the context as mutated so far.
  \<open>OutOfFuel\<close> is a recursion that the given number of nested \<^verbatim>\<open>accept\<close>
  calls does not finish.
\<close>

datatype 'a outcome =
    Returns 'a parameters
  | Throws error parameters
  | OutOfFuel

definition bind :: "'a outcome \<Rightarrow> ('a \<Rightarrow> parameters \<Rightarrow> 'b outcome) \<Rightarrow> 'b outcome" where
  "bind m f = (case m of Returns a ctx \<Rightarrow> f a ctx | Throws e ctx \<Rightarrow> Throws e ctx | OutOfFuel \<Rightarrow> OutOfFuel)"

section \<open>Helpers of \<^verbatim>\<open>./utilities\<close> and of the model manager\<close>

text \<open>
  The helpers the visitor imports are not part of the sources at hand; the visitor is
  modelled for any implementation of them. A helper that throws returns its message.
\<close>

record helpers =
  isHidden :: "property \<Rightarrow> bool"
  getCustomSelectDecoratorKey :: "property \<Rightarrow> string option"
  getDefaultValue :: "property \<Rightarrow> parameters \<Rightarrow> jsval"
  toFieldType :: "string \<Rightarrow> string"
  findConcreteSubclass :: "decl \<Rightarrow> string + decl"
  newResource :: "(string \<times> decl) list \<Rightarrow> string \<Rightarrow> string \<Rightarrow> string \<Rightarrow> bool \<Rightarrow> bool \<Rightarrow> string + resource"

text \<open>
  Modelled from the spec: \<^verbatim>\<open>hideProperty\<close> of \<^verbatim>\<open>./utilities\<close>. A property is
  hidden by the accumulated hidden-fields set when its fully qualified name is in it.
\<close>

definition hideProperty :: "property \<Rightarrow> parameters \<Rightarrow> bool" where
  "hideProperty p ctx =
     (case hiddenFields ctx of None \<Rightarrow> False | Some hs \<Rightarrow> getFullyQualifiedName p \<in> set hs)"

text \<open>\<^verbatim>\<open>modelManager.getType(name)\<close> throws for a name the model does not declare.\<close>

definition getTypeDeclaration :: "(string \<times> decl) list \<Rightarrow> string \<Rightarrow> decl option" where
  "getTypeDeclaration mm n = map_of mm n"

section \<open>The visitor\<close>

text \<open>
  Every method below is the method of the same name of \<^verbatim>\<open>ReactFormVisitor\<close>. A
  property or declaration is visited through \<^verbatim>\<open>x.accept(this, parameters)\<close>, which
  calls \<^verbatim>\<open>visit\<close> back; the argument \<open>accept\<close> stands for that call.
\<close>

type_synonym acceptor = "thing \<Rightarrow> parameters \<Rightarrow> element outcome"

definition visitEnumDeclaration :: "enumdecl \<Rightarrow> parameters \<Rightarrow> element outcome" where
  "visitEnumDeclaration enumDeclaration ctx =
     (let key = pathToString (stack ctx);
          value = get (json ctx) key
      in Returns
           (Element ConcertoDropdown (JStr (''enum-'' @ key))
              [(''id'', PVal (JStr key)),
               (''value'', PVal value),
               (''displayText'', PVal value),
               (''field'', PEnum enumDeclaration),
               (''readOnly'', PVal (JBool (disabled ctx))),
               (''textOnly'', PVal (JBool (textOnly ctx))),
               (''onFieldValueChange'', PHandler (onFieldValueChange ctx)),
               (''options'', POptions
                  (map (\<lambda>property.
                          \<lparr>ddKey = ''option-'' @ getName property,
                           ddValue = getName property,
                           ddText = getName property\<rparr>)
                     (enumProperties enumDeclaration)))]
              [])
           ctx)"

text \<open>
  The members every plain object inherits from \<^verbatim>\<open>Object.prototype\<close>; a property
  read finds them under their names when the object has no own property of that name.
\<close>

definition objectPrototypeMembers :: "string list" where
  "objectPrototypeMembers =
     [''constructor'', ''__defineGetter__'', ''__defineSetter__'', ''hasOwnProperty'',
      ''__lookupGetter__'', ''__lookupSetter__'', ''isPrototypeOf'', ''propertyIsEnumerable'',
      ''toString'', ''valueOf'', ''__proto__'', ''toLocaleString'']"

text \<open>
  \<^verbatim>\<open>customSelectors[customSelectorKey]\<close>, where a context without the registry
  reads as the empty object (\<^verbatim>\<open>const { customSelectors = {} } = parameters\<close>): the
  own entry of that key, else the inherited member of that name (a function or the
  prototype, truthy and without \<^verbatim>\<open>map\<close>), else \<^verbatim>\<open>undefined\<close>.
\<close>

datatype selectorEntry =
    Options "selectOption list"
  | InheritedMember string
  | NoEntry

definition lookupSelector :: "parameters \<Rightarrow> string \<Rightarrow> selectorEntry" where
  "lookupSelector ctx k =
     (case map_of (case customSelectors ctx of None \<Rightarrow> [] | Some r \<Rightarrow> r) k of
        Some options \<Rightarrow> Options options
      | None \<Rightarrow> (if k \<in> set objectPrototypeMembers then InheritedMember k else NoEntry))"

definition visitSingletonField ::
  "helpers \<Rightarrow> acceptor \<Rightarrow> property \<Rightarrow> parameters \<Rightarrow> props \<Rightarrow> element outcome" where
  "visitSingletonField U accept field ctx props =
     (let key = pathToString (stack ctx);
          value = get (json ctx) key
      in if isPrimitive field then
           (if getType field = ''Boolean'' then
              Returns
                (Element ConcertoCheckbox (JStr key)
                   (props @
                    [(''id'', PVal (JStr key)),
                     (''value'', PVal value),
                     (''toggle'', PVal (if checkboxStyle ctx = JStr ''toggle''
                                        then JStr ''toggle'' else JUndefined))])
                   [])
                ctx
            else if toFieldType U (getType field) = ''datetime-local'' then
              Returns
                (Element ConcertoDateTime (JStr key)
                   (props @ [(''id'', PVal (JStr key)), (''value'', PVal value)]) [])
                ctx
            else
              (case getCustomSelectDecoratorKey U field of
                 Some customSelectorKey \<Rightarrow>
                   (if customSelectorKey = [] then
                      Returns
                        (Element ConcertoInput (JStr key)
                           (props @ [(''id'', PVal (JStr key)), (''value'', PVal value)]) [])
                        ctx
                    else
                      (case lookupSelector ctx customSelectorKey of
                         NoEntry \<Rightarrow> Throws (CustomSelectorNotFound customSelectorKey) ctx
                       | InheritedMember member \<Rightarrow>
                           Throws (TypeError ''options.map is not a function'') ctx
                       | Options options \<Rightarrow>
                           Returns
                             (Element ConcertoDropdown (JStr (''select-'' @ key))
                                [(''id'', PVal (JStr key)),
                                 (''value'', PVal value),
                                 (''displayText'', PVal value),
                                 (''textOnly'', PVal (JBool (textOnly ctx))),
                                 (''readOnly'', PVal (JBool (disabled ctx))),
                                 (''onFieldValueChange'', PHandler (onFieldValueChange ctx)),
                                 (''options'', POptions
                                    (map (\<lambda>opt.
                                            \<lparr>ddKey = ''option-'' @ optValue opt,
                                             ddValue = optValue opt,
                                             ddText = optText opt\<rparr>)
                                       options))]
                                [])
                             ctx))
               | None \<Rightarrow>
                   Returns
                     (Element ConcertoInput (JStr key)
                        (props @ [(''id'', PVal (JStr key)), (''value'', PVal value)]) [])
                     ctx))
         else
           (case getTypeDeclaration (modelManager ctx) (getFullyQualifiedTypeName field) of
              None \<Rightarrow> Throws (TypeNotFound (getFullyQualifiedTypeName field)) ctx
            | Some declared \<Rightarrow>
                (case findConcreteSubclass U declared of
                   Inl msg \<Rightarrow> Throws (HelperError msg) ctx
                 | Inr type \<Rightarrow>
                     (let name =
                            (case getDecorator field ''FormEditor'' of
                               None \<Rightarrow> JStr (getName field)
                             | Some decorator \<Rightarrow>
                                 (if 1 < length (getArguments decorator)
                                  then getArguments decorator ! 1 else JUndefined))
                      in bind (accept (thing_of_declaration type) ctx)
                           (\<lambda>inner ctx'.
                              Returns
                                (Element FormField name
                                   [(''required'', PVal (JBool (\<not> isOptional field)))]
                                   [Element ConcertoLabel name
                                      [(''skip'', prop_or_undefined props ''skipLabel''),
                                       (''name'', PVal name)]
                                      [],
                                    inner])
                                ctx')))))"

text \<open>
  The callback of \<^verbatim>\<open>value.map\<close> in \<^verbatim>\<open>visitField\<close>, run for the indices of the
  array in order: the index is pushed, the element wrapper is built around the singleton
  widget, the index is popped.
\<close>

fun visitFieldElements ::
  "helpers \<Rightarrow> acceptor \<Rightarrow> property \<Rightarrow> props \<Rightarrow> nat list \<Rightarrow> parameters \<Rightarrow> element list outcome" where
  "visitFieldElements U accept field commonProps [] ctx = Returns [] ctx"
| "visitFieldElements U accept field commonProps (index # rest) ctx =
     bind (visitSingletonField U accept field (push (Index index) ctx) commonProps)
       (\<lambda>inner ctx'.
          bind (visitFieldElements U accept field commonProps rest (pop ctx'))
            (\<lambda>others ctx''.
               Returns
                 (Element ConcertoArrayElement
                    (JStr (getName field @ ''_wrapper['' @ show_nat index @ '']''))
                    (commonProps @ [(''index'', PVal (JNum (int index)))])
                    [inner]
                  # others)
                 ctx''))"

text \<open>
  \<^verbatim>\<open>value && value.map(callback)\<close>: a falsy value is the child itself, an array is
  mapped, and any other value has no \<^verbatim>\<open>map\<close> to call.
\<close>

definition mapValue ::
  "jsval \<Rightarrow> (nat list \<Rightarrow> parameters \<Rightarrow> element list outcome) \<Rightarrow> parameters \<Rightarrow> element outcome" where
  "mapValue value callback ctx =
     (if \<not> truthy value then Returns (Value value) ctx
      else
        (case value of
           JArr entries \<Rightarrow>
             bind (callback [0..<length entries] ctx) (\<lambda>wrappers ctx'. Returns (Elements wrappers) ctx')
         | _ \<Rightarrow> Throws (TypeError ''value.map is not a function'') ctx))"

text \<open>
  The object literal \<^verbatim>\<open>commonProps\<close> of \<^verbatim>\<open>visitField\<close>, built from the flags and
  callbacks the method destructured from the context at entry.
\<close>

definition fieldCommonProps ::
  "helpers \<Rightarrow> property \<Rightarrow> parameters \<Rightarrow> string \<Rightarrow> jsval \<Rightarrow> props" where
  "fieldCommonProps U field ctx key value =
     [(''skipLabel'', PVal (JBool (skipLabel ctx \<or> isArray field))),
      (''id'', PVal (JStr key)),
      (''field'', PProperty field),
      (''value'', PVal value),
      (''type'', PVal (JStr (toFieldType U (getType field)))),
      (''required'', PVal (JBool (\<not> isOptional field))),
      (''readOnly'', PVal (JBool (disabled ctx))),
      (''textOnly'', PVal (JBool (textOnly ctx))),
      (''addElement'', PHandler (addElement ctx)),
      (''removeElement'', PHandler (removeElement ctx)),
      (''onFieldValueChange'', PHandler (onFieldValueChange ctx))]"

definition visitField :: "helpers \<Rightarrow> acceptor \<Rightarrow> property \<Rightarrow> parameters \<Rightarrow> element outcome" where
  "visitField U accept field ctx =
     (if hideProperty field ctx \<or> isHidden U field then Returns (Value JNull) ctx
      else
        (let ctx1 = push (Name (getName field)) ctx;
             key = pathToString (stack ctx1);
             value = get (json ctx1) key;
             commonProps = fieldCommonProps U field ctx key value
         in bind
              (if isArray field then
                 bind (mapValue value (visitFieldElements U accept field commonProps) ctx1)
                   (\<lambda>children ctx2.
                      Returns
                        (Element ConcertoArray (JStr (getName field @ ''_wrapper''))
                           (commonProps @ [(''addElement'', PAddDefault (addElement ctx) field)])
                           [children])
                        ctx2)
               else visitSingletonField U accept field ctx1 commonProps)
              (\<lambda>component ctx3. Returns component (pop ctx3))))"

text \<open>The callback of \<^verbatim>\<open>value.map\<close> in \<^verbatim>\<open>visitRelationship\<close>.\<close>

fun visitRelationshipElements ::
  "props \<Rightarrow> nat list \<Rightarrow> parameters \<Rightarrow> element list outcome" where
  "visitRelationshipElements commonProps [] ctx = Returns [] ctx"
| "visitRelationshipElements commonProps (index # rest) ctx =
     (let ctx1 = push (Index index) ctx;
          key = pathToString (stack ctx1);
          value = get (json ctx1) key;
          arrayComponent =
            Element ConcertoArrayElement
              (JStr (''relationship-'' @ key @ ''-'' @ show_nat index))
              (commonProps @ [(''index'', PVal (JNum (int index)))])
              [Element ConcertoRelationship JUndefined
                 (commonProps @ [(''id'', PVal (JStr key)), (''value'', PVal value)]) []]
      in bind (visitRelationshipElements commonProps rest (pop ctx1))
           (\<lambda>others ctx'. Returns (arrayComponent # others) ctx'))"

text \<open>The object literal \<^verbatim>\<open>commonProps\<close> of \<^verbatim>\<open>visitRelationship\<close>.\<close>

definition relationshipCommonProps ::
  "property \<Rightarrow> parameters \<Rightarrow> string \<Rightarrow> jsval \<Rightarrow> props" where
  "relationshipCommonProps relationship ctx key value =
     [(''skipLabel'', PVal (JBool (skipLabel ctx \<or> isArray relationship))),
      (''id'', PVal (JStr key)),
      (''field'', PProperty relationship),
      (''value'', PVal value),
      (''type'', PVal (JStr ''text'')),
      (''required'', PVal (JBool (\<not> isOptional relationship))),
      (''readOnly'', PVal (JBool (disabled ctx))),
      (''textOnly'', PVal (JBool (textOnly ctx))),
      (''addElement'', PHandler (addElement ctx)),
      (''removeElement'', PHandler (removeElement ctx)),
      (''onFieldValueChange'', PHandler (onFieldValueChange ctx)),
      (''relationshipProvider'', PHandler (relationshipProvider ctx))]"

definition visitRelationship :: "helpers \<Rightarrow> property \<Rightarrow> parameters \<Rightarrow> element outcome" where
  "visitRelationship U relationship ctx =
     (if hideProperty relationship ctx \<or> isHidden U relationship then Returns (Value JNull) ctx
      else
        (let ctx1 = push (Name (getName relationship)) ctx;
             key = pathToString (stack ctx1);
             value = get (json ctx1) key;
             commonProps = relationshipCommonProps relationship ctx key value
         in bind
              (if isArray relationship then
                 (case newResource U (modelManager ctx1) (getNamespace relationship)
                         (getType relationship) ''resource1''
                         (includeOptionalFields ctx1) (includeSampleData ctx1) of
                    Inl msg \<Rightarrow> Throws (HelperError msg) ctx1
                  | Inr newRes \<Rightarrow>
                      bind (mapValue value (visitRelationshipElements commonProps) ctx1)
                        (\<lambda>children ctx2.
                           Returns
                             (Element ConcertoArray (JStr key)
                                (commonProps @ [(''addElement'', PAddURI (addElement ctx) newRes)])
                                [children])
                             ctx2))
               else
                 Returns
                   (Element ConcertoRelationship (JStr key)
                      (commonProps @ [(''value'', PVal value)]) [])
                   ctx1)
              (\<lambda>component ctx3. Returns component (pop ctx3))))"

text \<open>\<^verbatim>\<open>props[i].accept(this, parameters)\<close>; a class with fewer properties has no \<^verbatim>\<open>props[i]\<close>.\<close>

definition acceptAt :: "acceptor \<Rightarrow> property_node list \<Rightarrow> nat \<Rightarrow> parameters \<Rightarrow> element outcome" where
  "acceptAt accept props i ctx =
     (if i < length props then accept (thing_of_property (props ! i)) ctx
      else Throws (TypeError ''props[i] is undefined'') ctx)"

definition visitMonetaryAmount :: "acceptor \<Rightarrow> classdecl \<Rightarrow> parameters \<Rightarrow> element outcome" where
  "visitMonetaryAmount accept declaration ctx =
     (let props = getProperties declaration in
      bind (acceptAt accept props 0 (ctx\<lparr>skipLabel := True\<rparr>))
        (\<lambda>first ctx1.
           bind (acceptAt accept props 1 ctx1)
             (\<lambda>second ctx2.
                Returns
                  (Element MonetaryAmount (JStr (toLowerCase (className declaration))) []
                     [first, second])
                  (ctx2\<lparr>skipLabel := False\<rparr>))))"

definition visitDuration :: "acceptor \<Rightarrow> classdecl \<Rightarrow> parameters \<Rightarrow> element outcome" where
  "visitDuration accept declaration ctx =
     (let props = getProperties declaration in
      bind (acceptAt accept props 0 (ctx\<lparr>skipLabel := True\<rparr>))
        (\<lambda>first ctx1.
           bind (acceptAt accept props 1 ctx1)
             (\<lambda>second ctx2.
                Returns
                  (Element Duration (JStr (toLowerCase (className declaration))) []
                     [first, second])
                  (ctx2\<lparr>skipLabel := False\<rparr>))))"

definition visitAccordParty :: "acceptor \<Rightarrow> classdecl \<Rightarrow> parameters \<Rightarrow> element outcome" where
  "visitAccordParty accept declaration ctx =
     (let props = getProperties declaration in
      bind (acceptAt accept props 0 (ctx\<lparr>skipLabel := True\<rparr>))
        (\<lambda>first ctx1.
           Returns
             (Element Div (JStr (toLowerCase (className declaration))) [] [first])
             (ctx1\<lparr>skipLabel := False\<rparr>)))"

text \<open>\<^verbatim>\<open>getProperties().map(p => p.accept(this, parameters))\<close>.\<close>

fun acceptAll :: "acceptor \<Rightarrow> property_node list \<Rightarrow> parameters \<Rightarrow> element list outcome" where
  "acceptAll accept [] ctx = Returns [] ctx"
| "acceptAll accept (p # ps) ctx =
     bind (accept (thing_of_property p) ctx)
       (\<lambda>component ctx'.
          bind (acceptAll accept ps ctx')
            (\<lambda>others ctx''. Returns (component # others) ctx''))"

text \<open>
  The first block of \<^verbatim>\<open>visitClassDeclaration\<close>: with \<^verbatim>\<open>hideIdentifiers\<close> set, the
  fully qualified name of the identifier field is pushed onto \<^verbatim>\<open>hiddenFields\<close>.
\<close>

definition recordIdentifier :: "classdecl \<Rightarrow> parameters \<Rightarrow> unit outcome" where
  "recordIdentifier classDeclaration ctx =
     (if hideIdentifiers ctx then
        (let ctx1 = (if hiddenFields ctx = None then ctx\<lparr>hiddenFields := Some []\<rparr> else ctx)
         in case getIdentifierFieldName classDeclaration of
              None \<Rightarrow> Returns () ctx1
            | Some idFieldName \<Rightarrow>
                (if idFieldName = [] then Returns () ctx1
                 else
                   (case getProperty classDeclaration idFieldName of
                      None \<Rightarrow> Throws (TypeError ''idField is null'') ctx1
                    | Some idField \<Rightarrow>
                        Returns ()
                          (ctx1\<lparr>hiddenFields :=
                             Some ((case hiddenFields ctx1 of None \<Rightarrow> [] | Some hs \<Rightarrow> hs)
                                   @ [getFullyQualifiedName idField])\<rparr>))))
      else Returns () ctx)"

definition visitClassDeclaration :: "acceptor \<Rightarrow> classdecl \<Rightarrow> parameters \<Rightarrow> element outcome" where
  "visitClassDeclaration accept classDeclaration ctx =
     bind (recordIdentifier classDeclaration ctx)
       (\<lambda>_ ctx1.
          if isAbstract classDeclaration then Returns (Value JNull) ctx1
          else if classFullyQualifiedName classDeclaration
                  \<in> set [''org.accordproject.money.MonetaryAmount'',
                          ''org.accordproject.money.DigitalMonetaryAmount'']
          then visitMonetaryAmount accept classDeclaration ctx1
          else if classFullyQualifiedName classDeclaration
                  \<in> set [''org.accordproject.time.Duration'',
                          ''org.accordproject.time.Period'']
          then visitDuration accept classDeclaration ctx1
          else if classFullyQualifiedName classDeclaration
                  \<in> set [''org.accordproject.cicero.contract.AccordParty'']
          then visitAccordParty accept classDeclaration ctx1
          else
            bind (acceptAll accept (getProperties classDeclaration) ctx1)
              (\<lambda>components ctx2. Returns (Elements components) ctx2))"

text \<open>
  The first statement of \<^verbatim>\<open>visit\<close>:
  \<^verbatim>\<open>if (!parameters.fileWriter) { parameters.fileWriter = new Writer(); }\<close>.
\<close>

definition installFileWriter :: "parameters \<Rightarrow> parameters" where
  "installFileWriter ctx =
     (if fileWriter ctx = None then ctx\<lparr>fileWriter := Some new_Writer\<rparr> else ctx)"

text \<open>
  The body of \<^verbatim>\<open>visit\<close>: a missing \<^verbatim>\<open>fileWriter\<close> is installed, then the
  \<^verbatim>\<open>instanceof\<close> chain dispatches.
\<close>

definition dispatch :: "helpers \<Rightarrow> acceptor \<Rightarrow> thing \<Rightarrow> parameters \<Rightarrow> element outcome" where
  "dispatch U accept thing ctx =
     (let ctx1 = installFileWriter ctx
      in case thing of
           EnumDeclaration e \<Rightarrow> visitEnumDeclaration e ctx1
         | ClassDeclaration c \<Rightarrow> visitClassDeclaration accept c ctx1
         | Field f \<Rightarrow> visitField U accept f ctx1
         | RelationshipDeclaration r \<Rightarrow> visitRelationship U r ctx1
         | Other v \<Rightarrow> Throws (UnrecognisedType v) ctx1)"

text \<open>
  \<^verbatim>\<open>visit\<close>, with the depth of nested \<^verbatim>\<open>accept\<close> calls bounded by \<open>fuel\<close>: a
  traversal that needs deeper nesting is \<open>OutOfFuel\<close>.
\<close>

fun visit :: "helpers \<Rightarrow> nat \<Rightarrow> thing \<Rightarrow> parameters \<Rightarrow> element outcome" where
  "visit U 0 thing ctx = OutOfFuel"
| "visit U (Suc fuel) thing ctx = dispatch U (visit U fuel) thing ctx"

text \<open>A call of \<^verbatim>\<open>visit\<close> terminates when some depth of nesting suffices.\<close>

definition terminates :: "helpers \<Rightarrow> thing \<Rightarrow> parameters \<Rightarrow> bool" where
  "terminates U thing ctx = (\<exists>fuel. visit U fuel thing ctx \<noteq> OutOfFuel)"

section \<open>Vocabulary for stating what a call leaves behind\<close>

text \<open>
  \<open>post m Q E\<close>: if the call \<open>m\<close> returns, \<open>Q\<close> holds of its value and final context;
  if it throws, \<open>E\<close> holds of the error and the context at the throw.
\<close>

definition post :: "'a outcome \<Rightarrow> ('a \<Rightarrow> parameters \<Rightarrow> bool) \<Rightarrow> (error \<Rightarrow> parameters \<Rightarrow> bool) \<Rightarrow> bool" where
  "post m Q E = (case m of Returns a c \<Rightarrow> Q a c | Throws e c \<Rightarrow> E e c | OutOfFuel \<Rightarrow> True)"

text \<open>
  The part of the context no method assigns: the document, the model manager, the
  registry, the \<^verbatim>\<open>hideIdentifiers\<close> flag, and a \<^verbatim>\<open>fileWriter\<close> that is present.
\<close>

definition frame :: "parameters \<Rightarrow> parameters \<Rightarrow> bool" where
  "frame ctx ctx' =
     (json ctx' = json ctx \<and> modelManager ctx' = modelManager ctx
      \<and> customSelectors ctx' = customSelectors ctx
      \<and> hideIdentifiers ctx' = hideIdentifiers ctx
      \<and> (fileWriter ctx \<noteq> None \<longrightarrow> fileWriter ctx' = fileWriter ctx))"

definition kept :: "parameters \<Rightarrow> 'a \<Rightarrow> parameters \<Rightarrow> bool" where
  "kept ctx a c = (stack c = stack ctx \<and> frame ctx c)"

text \<open>An \<open>accept\<close> that returns with the path stack as it found it.\<close>

definition tidy :: "acceptor \<Rightarrow> bool" where
  "tidy accept = (\<forall>t ctx. post (accept t ctx) (kept ctx) (\<lambda>e. frame ctx))"

text \<open>The error of \<^verbatim>\<open>visit\<close> on a value that is none of the four node classes.\<close>

fun isUnrecognised :: "error \<Rightarrow> bool" where
  "isUnrecognised (UnrecognisedType v) = True"
| "isUnrecognised _ = False"

fun isNode :: "thing \<Rightarrow> bool" where
  "isNode (Other v) = False"
| "isNode _ = True"

definition recognised :: "'a outcome \<Rightarrow> bool" where
  "recognised m = post m (\<lambda>a c. True) (\<lambda>e c. \<not> isUnrecognised e)"

definition recognising :: "acceptor \<Rightarrow> bool" where
  "recognising accept = (\<forall>t ctx. isNode t \<longrightarrow> recognised (accept t ctx))"

text \<open>Reading a prop of the element a call returned, and the context it returned with.\<close>

definition returnedProp :: "element outcome \<Rightarrow> string \<Rightarrow> propval option" where
  "returnedProp m k = (case m of Returns (Element _ _ ps _) _ \<Rightarrow> lookupProp ps k | _ \<Rightarrow> None)"

definition returnedContext :: "'a outcome \<Rightarrow> parameters option" where
  "returnedContext m = (case m of Returns _ c \<Rightarrow> Some c | _ \<Rightarrow> None)"








section \<open>Vocabulary for termination\<close>

text \<open>
  The declarations the visitor goes on to visit from a declaration: for every composite
  field of a class that is not abstract, the type the model manager resolves its
  declared type name to, replaced by what \<^verbatim>\<open>findConcreteSubclass\<close> returns for it.
  Relationships and enumerations lead nowhere.
\<close>

definition fieldReferences :: "helpers \<Rightarrow> (string \<times> decl) list \<Rightarrow> property \<Rightarrow> decl list" where
  "fieldReferences U mm field =
     (if isPrimitive field then []
      else
        (case getTypeDeclaration mm (getFullyQualifiedTypeName field) of
           None \<Rightarrow> []
         | Some declared \<Rightarrow>
             (case findConcreteSubclass U declared of Inl msg \<Rightarrow> [] | Inr type \<Rightarrow> [type])))"

fun propertyReferences :: "helpers \<Rightarrow> (string \<times> decl) list \<Rightarrow> property_node \<Rightarrow> decl list" where
  "propertyReferences U mm (FieldDecl field) = fieldReferences U mm field"
| "propertyReferences U mm (RelationshipDecl relationship) = []"

fun references :: "helpers \<Rightarrow> (string \<times> decl) list \<Rightarrow> decl \<Rightarrow> decl list" where
  "references U mm (DEnum e) = []"
| "references U mm (DClass c) =
     (if isAbstract c then [] else concat (map (propertyReferences U mm) (getProperties c)))"

definition referenceGraph :: "helpers \<Rightarrow> (string \<times> decl) list \<Rightarrow> (decl \<times> decl) set" where
  "referenceGraph U mm = {(d, d'). d' \<in> set (references U mm d)}"

text \<open>
  The declarations a declaration refers to by the declared types of its fields and
  relationships, as the model manager resolves the type names.
\<close>

definition declaredReferences :: "(string \<times> decl) list \<Rightarrow> decl \<Rightarrow> decl list" where
  "declaredReferences mm d =
     (case d of
        DEnum e \<Rightarrow> []
      | DClass c \<Rightarrow>
          concat (map (\<lambda>p. case getTypeDeclaration mm (getFullyQualifiedTypeName (property_of p)) of
                               None \<Rightarrow> [] | Some declared \<Rightarrow> [declared])
                    (getProperties c)))"

definition declaredGraph :: "(string \<times> decl) list \<Rightarrow> (decl \<times> decl) set" where
  "declaredGraph mm = {(d, d'). d' \<in> set (declaredReferences mm d)}"

text \<open>A call that returns or throws; an \<open>accept\<close> that does so on a node, whatever the
  context with the model manager \<open>mm\<close> is; an \<open>accept\<close> that agrees with another one
  wherever that one returns or throws.\<close>

definition halts :: "'a outcome \<Rightarrow> bool" where
  "halts m = (m \<noteq> OutOfFuel)"

definition ready :: "acceptor \<Rightarrow> (string \<times> decl) list \<Rightarrow> thing \<Rightarrow> bool" where
  "ready accept mm t = (\<forall>ctx. modelManager ctx = mm \<longrightarrow> halts (accept t ctx))"

definition extends :: "acceptor \<Rightarrow> acceptor \<Rightarrow> bool" where
  "extends accept accept' = (\<forall>t c. halts (accept t c) \<longrightarrow> accept' t c = accept t c)"

section \<open>Vocabulary for the skip-label flag\<close>

text \<open>
  A sub-property whose visit reaches none of the composite visitors: a relationship, a
  primitive field, or a field whose resolved type is an enumeration.
\<close>

fun leafProperty :: "helpers \<Rightarrow> (string \<times> decl) list \<Rightarrow> property_node \<Rightarrow> bool" where
  "leafProperty U mm (RelationshipDecl relationship) = True"
| "leafProperty U mm (FieldDecl field) =
     list_all (\<lambda>d. case d of DEnum e \<Rightarrow> True | DClass c \<Rightarrow> False) (fieldReferences U mm field)"

text \<open>A call that, if it returns, leaves the skip-label flag and the model manager as they were.\<close>

definition sameFlag :: "parameters \<Rightarrow> parameters \<Rightarrow> bool" where
  "sameFlag ctx c = (skipLabel c = skipLabel ctx \<and> modelManager c = modelManager ctx)"

definition quiet :: "'a outcome \<Rightarrow> parameters \<Rightarrow> bool" where
  "quiet m ctx = post m (\<lambda>a. sameFlag ctx) (\<lambda>e c. True)"

text \<open>The children of the element a call returned, and a prop of an element.\<close>

definition subWidgets :: "element outcome \<Rightarrow> element list" where
  "subWidgets m = (case m of Returns (Element _ _ _ children) _ \<Rightarrow> children | _ \<Rightarrow> [])"

definition elementProp :: "element \<Rightarrow> string \<Rightarrow> propval option" where
  "elementProp w k = (case w of Element _ _ ps _ \<Rightarrow> lookupProp ps k | _ \<Rightarrow> None)"

section \<open>Example inputs\<close>

text \<open>
  Modelled from the spec: one implementation of the helpers of \<^verbatim>\<open>./utilities\<close> and of
  the resource factory, used to run the visitor on the examples below: nothing is hidden
  by policy, no field carries a custom selector, \<^verbatim>\<open>DateTime\<close> maps to the date/time
  picker, every declaration is its own concrete subclass.
\<close>

definition exampleHelpers :: helpers where
  "exampleHelpers =
     \<lparr>isHidden = (\<lambda>p. False),
      getCustomSelectDecoratorKey = (\<lambda>p. None),
      getDefaultValue = (\<lambda>p ctx. JStr []),
      toFieldType = (\<lambda>t. if t = ''DateTime'' then ''datetime-local'' else ''text''),
      findConcreteSubclass = Inr,
      newResource = (\<lambda>mm ns t i opt gen. Inr \<lparr>resNamespace = ns, resType = t, resIdentifier = i\<rparr>)\<rparr>"

definition emptyContext :: parameters where
  "emptyContext =
     \<lparr>fileWriter = None, hideIdentifiers = False, hiddenFields = None, skipLabel = False,
      disabled = False, textOnly = False, checkboxStyle = JUndefined, customSelectors = None,
      stack = [], json = JObj [], modelManager = [],
      includeOptionalFields = False, includeSampleData = False,
      addElement = Handler ''addElement'', removeElement = Handler ''removeElement'',
      onFieldValueChange = Handler ''onFieldValueChange'',
      relationshipProvider = NoHandler\<rparr>"

definition exampleProperty :: "string \<Rightarrow> string \<Rightarrow> bool \<Rightarrow> property" where
  "exampleProperty n t arr =
     \<lparr>getName = n, getFullyQualifiedName = ''org.acme.Person.'' @ n, getType = t,
      getFullyQualifiedTypeName = (if t \<in> set primitiveTypes then t else ''org.acme.'' @ t),
      getNamespace = ''org.acme'', isArray = arr, isOptional = False, getDecorators = []\<rparr>"


text \<open>Declarations of the example schema.\<close>

definition accordParty :: classdecl where
  "accordParty =
     \<lparr>className = ''AccordParty'',
      classFullyQualifiedName = ''org.accordproject.cicero.contract.AccordParty'',
      isAbstract = False, getIdentifierFieldName = Some ''partyId'',
      getProperties = [FieldDecl (exampleProperty ''partyId'' ''String'' False)]\<rparr>"

definition durationClass :: classdecl where
  "durationClass =
     \<lparr>className = ''Duration'', classFullyQualifiedName = ''org.accordproject.time.Duration'',
      isAbstract = False, getIdentifierFieldName = None,
      getProperties = [FieldDecl (exampleProperty ''amount'' ''Long'' False),
                       FieldDecl (exampleProperty ''unit'' ''String'' False)]\<rparr>"

definition abstractAsset :: classdecl where
  "abstractAsset =
     \<lparr>className = ''Asset'', classFullyQualifiedName = ''org.acme.Asset'', isAbstract = True,
      getIdentifierFieldName = Some ''assetId'',
      getProperties = [FieldDecl (exampleProperty ''assetId'' ''String'' False)]\<rparr>"

definition statusEnum :: enumdecl where
  "statusEnum =
     \<lparr>enumName = ''Status'', enumFullyQualifiedName = ''org.acme.Status'',
      enumProperties = [exampleProperty ''A'' ''String'' False,
                        exampleProperty ''B'' ''String'' False,
                        exampleProperty ''C'' ''String'' False]\<rparr>"

definition monetaryAmount :: classdecl where
  "monetaryAmount =
     \<lparr>className = ''MonetaryAmount'',
      classFullyQualifiedName = ''org.accordproject.money.MonetaryAmount'', isAbstract = False,
      getIdentifierFieldName = None,
      getProperties = [FieldDecl (exampleProperty ''doubleValue'' ''Double'' False),
                       FieldDecl (exampleProperty ''currencyCode'' ''String'' False)]\<rparr>"


text \<open>
  A schema with an abstract class \<open>Node\<close> and a class \<open>Branch\<close> with one field of
  the declared type \<open>Node\<close>.
\<close>

definition nodeClass :: classdecl where
  "nodeClass =
     \<lparr>className = ''Node'', classFullyQualifiedName = ''org.acme.Node'', isAbstract = True,
      getIdentifierFieldName = None, getProperties = []\<rparr>"

definition branchClass :: classdecl where
  "branchClass =
     \<lparr>className = ''Branch'', classFullyQualifiedName = ''org.acme.Branch'', isAbstract = False,
      getIdentifierFieldName = None,
      getProperties = [FieldDecl (exampleProperty ''child'' ''Node'' False)]\<rparr>"

definition treeModel :: "(string \<times> decl) list" where
  "treeModel = [(''org.acme.Node'', DClass nodeClass), (''org.acme.Branch'', DClass branchClass)]"

definition treeContext :: parameters where
  "treeContext = emptyContext\<lparr>modelManager := treeModel\<rparr>"

text \<open>
  Modelled from the spec: a \<^verbatim>\<open>findConcreteSubclass\<close> that returns a declaration that
  is not abstract as it is and substitutes for the abstract \<open>Node\<close> its concrete
  subclass \<open>Branch\<close>.
\<close>

definition subclassHelpers :: helpers where
  "subclassHelpers =
     exampleHelpers\<lparr>findConcreteSubclass :=
       (\<lambda>d. case d of
               DEnum e \<Rightarrow> Inr d
             | DClass c \<Rightarrow>
                 (if \<not> isAbstract c then Inr d
                  else if classFullyQualifiedName c = ''org.acme.Node'' then Inr (DClass branchClass)
                  else Inl ''No concrete subclasses found''))\<rparr>"

text \<open>
  A class under the name of the monetary amount whose first property is of the duration
  type, and a context whose model manager declares that type.
\<close>

definition nestedAmount :: classdecl where
  "nestedAmount =
     \<lparr>className = ''MonetaryAmount'',
      classFullyQualifiedName = ''org.accordproject.money.MonetaryAmount'', isAbstract = False,
      getIdentifierFieldName = None,
      getProperties =
        [FieldDecl ((exampleProperty ''term'' ''Duration'' False)
                      \<lparr>getFullyQualifiedTypeName := ''org.accordproject.time.Duration''\<rparr>),
         FieldDecl (exampleProperty ''currencyCode'' ''String'' False)]\<rparr>"

definition nestedContext :: parameters where
  "nestedContext =
     emptyContext\<lparr>modelManager := [(''org.accordproject.time.Duration'', DClass durationClass)]\<rparr>"



lemmas evaluate =
  fieldCommonProps_def relationshipCommonProps_def
  visitField_def visitRelationship_def visitSingletonField_def visitEnumDeclaration_def
  visitClassDeclaration_def visitMonetaryAmount_def visitDuration_def visitAccordParty_def
  recordIdentifier_def acceptAt_def dispatch_def installFileWriter_def mapValue_def bind_def
  hideProperty_def push_def pop_def pathToString_def appendSegment_def get_def
  index_of_def show_nat.simps digit_def is_digit_def isPrimitive_def primitiveTypes_def
  getTypeDeclaration_def getDecorator_def getProperty_def toLowerCase_def lower_char_def
  lookupSelector_def objectPrototypeMembers_def lookupProp_def prop_or_undefined_def toURI_def new_Writer_def Let_def
  exampleHelpers_def emptyContext_def exampleProperty_def

section \<open>What every method leaves of the context\<close>

lemma post_simps [simp]:
  "post (Returns a c) Q E = Q a c"
  "post (Throws e c) Q E = E e c"
  "post OutOfFuel Q E = True"
  by (simp_all add: post_def)

lemma post_bind:
  "post m (\<lambda>a c. post (f a c) Q E) E \<Longrightarrow> post (bind m f) Q E"
  by (cases m) (simp_all add: bind_def)

lemma post_weaken:
  "post m Q E \<Longrightarrow> (\<And>a c. Q a c \<Longrightarrow> Q' a c) \<Longrightarrow> (\<And>e c. E e c \<Longrightarrow> E' e c) \<Longrightarrow> post m Q' E'"
  by (cases m) simp_all

lemma post_ReturnsD: "post m Q E \<Longrightarrow> m = Returns a c \<Longrightarrow> Q a c"
  by simp

lemma post_ThrowsD: "post m Q E \<Longrightarrow> m = Throws e c \<Longrightarrow> E e c"
  by simp

lemma frame_refl [simp]: "frame ctx ctx"
  by (simp add: frame_def)

lemma frame_trans: "frame a b \<Longrightarrow> frame b c \<Longrightarrow> frame a c"
  by (auto simp: frame_def)

lemma frame_push [simp]: "frame a (push s b) = frame a b" "frame (push s a) b = frame a b"
  by (simp_all add: frame_def push_def)

lemma frame_pop [simp]: "frame a (pop b) = frame a b" "frame (pop a) b = frame a b"
  by (simp_all add: frame_def pop_def)

lemma frame_skipLabel [simp]:
  "frame a (b\<lparr>skipLabel := x\<rparr>) = frame a b" "frame (a\<lparr>skipLabel := x\<rparr>) b = frame a b"
  by (simp_all add: frame_def)

lemma frame_hiddenFields [simp]:
  "frame a (b\<lparr>hiddenFields := x\<rparr>) = frame a b" "frame (a\<lparr>hiddenFields := x\<rparr>) b = frame a b"
  by (simp_all add: frame_def)

lemma stack_push_pop [simp]: "stack (pop c) = butlast (stack c)" "stack (push s c) = stack c @ [s]"
  by (simp_all add: push_def pop_def)

lemma tidyD: "tidy accept \<Longrightarrow> post (accept t ctx) (kept ctx) (\<lambda>e. frame ctx)"
  by (simp add: tidy_def)

lemma visitEnumDeclaration_tidy: "post (visitEnumDeclaration e ctx) (kept ctx) (\<lambda>e. frame ctx)"
  by (simp add: visitEnumDeclaration_def Let_def kept_def)

lemma visitSingletonField_tidy:
  assumes "tidy accept"
  shows "post (visitSingletonField U accept f ctx ps) (kept ctx) (\<lambda>e. frame ctx)"
  unfolding visitSingletonField_def Let_def
  by (auto simp: kept_def split: option.split sum.split selectorEntry.split
        intro!: post_bind post_weaken [OF tidyD [OF assms]])


lemma kept_trans: "kept a x b \<Longrightarrow> kept b y c \<Longrightarrow> kept a z c"
  by (auto simp: kept_def intro: frame_trans)

lemma visitFieldElements_tidy:
  assumes "tidy accept"
  shows "post (visitFieldElements U accept f ps is ctx) (kept ctx) (\<lambda>e. frame ctx)"
proof (induction "is" arbitrary: ctx)
  case Nil
  show ?case by (simp add: kept_def)
next
  case (Cons i "is")
  show ?case
    apply (simp only: visitFieldElements.simps)
    apply (rule post_bind)
    apply (rule post_weaken [OF visitSingletonField_tidy [OF assms]])
     apply (rule post_bind)
     apply (rule post_weaken [OF Cons.IH])
      apply (auto simp: kept_def intro: frame_trans)
    done
qed

lemma mapValue_tidy:
  assumes "\<And>is c. post (callback is c) (kept c) (\<lambda>e. frame c)"
  shows "post (mapValue v callback ctx) (kept ctx) (\<lambda>e. frame ctx)"
  unfolding mapValue_def
  by (auto simp: kept_def split: jsval.split intro!: post_bind post_weaken [OF assms])

lemma visitField_tidy:
  assumes "tidy accept"
  shows "post (visitField U accept f ctx) (kept ctx) (\<lambda>e. frame ctx)"
  unfolding visitField_def Let_def
  apply (clarsimp simp: kept_def)
  apply (intro conjI impI post_bind)
   apply (rule post_weaken [OF mapValue_tidy [OF visitFieldElements_tidy [OF assms]]])
    apply (auto simp: kept_def)[2]
  apply (rule post_weaken [OF visitSingletonField_tidy [OF assms]])
   apply (auto simp: kept_def)
  done

lemma visitRelationshipElements_tidy:
  "post (visitRelationshipElements ps is ctx) (kept ctx) (\<lambda>e. frame ctx)"
proof (induction "is" arbitrary: ctx)
  case Nil
  show ?case by (simp add: kept_def)
next
  case (Cons i "is")
  show ?case
    apply (simp only: visitRelationshipElements.simps Let_def)
    apply (rule post_bind)
    apply (rule post_weaken [OF Cons.IH])
     apply (auto simp: kept_def)
    done
qed

lemma visitRelationship_tidy:
  "post (visitRelationship U r ctx) (kept ctx) (\<lambda>e. frame ctx)"
  unfolding visitRelationship_def Let_def
  apply (clarsimp simp: kept_def)
  apply (intro conjI impI post_bind)
   apply (clarsimp split: sum.split)
   apply (intro conjI impI allI post_bind)
   apply (rule post_weaken [OF mapValue_tidy [OF visitRelationshipElements_tidy]])
    apply (auto simp: kept_def)
  done

lemma acceptAt_tidy:
  assumes "tidy accept"
  shows "post (acceptAt accept ps i ctx) (kept ctx) (\<lambda>e. frame ctx)"
  unfolding acceptAt_def using tidyD [OF assms] by simp

lemma acceptAll_tidy:
  assumes "tidy accept"
  shows "post (acceptAll accept ps ctx) (kept ctx) (\<lambda>e. frame ctx)"
proof (induction ps arbitrary: ctx)
  case Nil
  show ?case by (simp add: kept_def)
next
  case (Cons p ps)
  show ?case
    apply (simp only: acceptAll.simps)
    apply (rule post_bind)
    apply (rule post_weaken [OF tidyD [OF assms]])
     apply (rule post_bind)
     apply (rule post_weaken [OF Cons.IH])
      apply (auto simp: kept_def intro: frame_trans)
    done
qed

lemma visitMonetaryAmount_tidy:
  assumes "tidy accept"
  shows "post (visitMonetaryAmount accept d ctx) (kept ctx) (\<lambda>e. frame ctx)"
  unfolding visitMonetaryAmount_def Let_def
  apply (rule post_bind)
  apply (rule post_weaken [OF acceptAt_tidy [OF assms]])
   apply (rule post_bind)
   apply (rule post_weaken [OF acceptAt_tidy [OF assms]])
    apply (auto simp: kept_def intro: frame_trans)
  done

lemma visitDuration_tidy:
  assumes "tidy accept"
  shows "post (visitDuration accept d ctx) (kept ctx) (\<lambda>e. frame ctx)"
  unfolding visitDuration_def Let_def
  apply (rule post_bind)
  apply (rule post_weaken [OF acceptAt_tidy [OF assms]])
   apply (rule post_bind)
   apply (rule post_weaken [OF acceptAt_tidy [OF assms]])
    apply (auto simp: kept_def intro: frame_trans)
  done

lemma visitAccordParty_tidy:
  assumes "tidy accept"
  shows "post (visitAccordParty accept d ctx) (kept ctx) (\<lambda>e. frame ctx)"
  unfolding visitAccordParty_def Let_def
  apply (rule post_bind)
  apply (rule post_weaken [OF acceptAt_tidy [OF assms]])
   apply (auto simp: kept_def intro: frame_trans)
  done

lemma recordIdentifier_tidy:
  "post (recordIdentifier c ctx) (kept ctx) (\<lambda>e. frame ctx)"
  unfolding recordIdentifier_def Let_def
  by (auto simp: kept_def split: option.split)

lemma post_if:
  "(b \<Longrightarrow> post x Q E) \<Longrightarrow> (\<not> b \<Longrightarrow> post y Q E) \<Longrightarrow> post (if b then x else y) Q E"
  by simp

lemma tidy_after:
  "kept ctx a c \<Longrightarrow> post m (kept c) (\<lambda>e. frame c) \<Longrightarrow> post m (kept ctx) (\<lambda>e. frame ctx)"
  by (erule post_weaken) (auto simp: kept_def intro: frame_trans)

lemma visitClassDeclaration_tidy:
  assumes "tidy accept"
  shows "post (visitClassDeclaration accept c ctx) (kept ctx) (\<lambda>e. frame ctx)"
  unfolding visitClassDeclaration_def
  apply (rule post_bind)
  apply (rule post_weaken [OF recordIdentifier_tidy])
   apply (intro post_if)
       apply (simp add: kept_def)
      apply (erule tidy_after, rule visitMonetaryAmount_tidy [OF assms])
     apply (erule tidy_after, rule visitDuration_tidy [OF assms])
    apply (erule tidy_after, rule visitAccordParty_tidy [OF assms])
   apply (erule tidy_after, rule post_bind, rule post_weaken [OF acceptAll_tidy [OF assms]])
    apply (simp_all add: kept_def)
  done

lemma frame_fileWriter: "frame (installFileWriter ctx) c \<Longrightarrow> frame ctx c"
  by (auto simp: frame_def installFileWriter_def split: if_splits)

lemma stack_installFileWriter [simp]: "stack (installFileWriter ctx) = stack ctx"
  by (simp add: installFileWriter_def)

lemma dispatch_tidy:
  assumes "tidy accept"
  shows "tidy (dispatch U accept)"
  unfolding tidy_def dispatch_def Let_def
  apply (intro allI)
  subgoal for t ctx
    apply (cases t)
        apply (simp_all only: thing.case)
        apply (rule post_weaken [OF visitEnumDeclaration_tidy]; auto simp: kept_def dest: frame_fileWriter)
       apply (rule post_weaken [OF visitClassDeclaration_tidy [OF assms]]; auto simp: kept_def dest: frame_fileWriter)
      apply (rule post_weaken [OF visitField_tidy [OF assms]]; auto simp: kept_def dest: frame_fileWriter)
     apply (rule post_weaken [OF visitRelationship_tidy ]; auto simp: kept_def dest: frame_fileWriter)
    apply (auto simp: frame_def installFileWriter_def)
    done
  done

lemma visit_tidy: "tidy (visit U fuel)"
proof (induction fuel)
  case 0
  show ?case by (simp add: tidy_def)
next
  case (Suc fuel)
  then show ?case using dispatch_tidy [of "visit U fuel" U]
    by (simp add: tidy_def)
qed


section \<open>The path stack\<close>

text \<open>
  C1. When \<^verbatim>\<open>visitField\<close> or \<^verbatim>\<open>visitRelationship\<close> returns, the path stack of the
  context is the stack it had at entry, whichever branch ran: the hidden one, the
  scalar one, or the array one with its index pushed and popped around every element.
\<close>

theorem path_stack_balance:
  "(visitField U (visit U fuel) field ctx = Returns component ctx' \<longrightarrow> stack ctx' = stack ctx)
   \<and> (visitRelationship U relationship ctx = Returns component' ctx'' \<longrightarrow> stack ctx'' = stack ctx)"
proof (intro conjI impI)
  assume returned: "visitField U (visit U fuel) field ctx = Returns component ctx'"
  have "post (visitField U (visit U fuel) field ctx) (kept ctx) (\<lambda>e. frame ctx)"
    by (rule visitField_tidy [OF visit_tidy])
  with returned show "stack ctx' = stack ctx"
    by (simp add: kept_def)
next
  assume returned: "visitRelationship U relationship ctx = Returns component' ctx''"
  have "post (visitRelationship U relationship ctx) (kept ctx) (\<lambda>e. frame ctx)"
    by (rule visitRelationship_tidy)
  with returned show "stack ctx'' = stack ctx"
    by (simp add: kept_def)
qed

theorem path_stack_balance_witness:
  "\<exists>component ctx' component' ctx''.
     visitField exampleHelpers (visit exampleHelpers 0) (exampleProperty ''tags'' ''String'' True)
       (emptyContext\<lparr>stack := [Name ''person''],
          json := JObj [(''person'', JObj [(''tags'', JArr [JStr ''a'', JStr ''b''])])]\<rparr>)
       = Returns component ctx'
     \<and> stack ctx' = [Name ''person'']
     \<and> visitRelationship exampleHelpers (exampleProperty ''owner'' ''Person'' False)
         (emptyContext\<lparr>stack := [Name ''person'']\<rparr>)
       = Returns component' ctx''
     \<and> stack ctx'' = [Name ''person'']"
proof -
  let ?f = "exampleProperty ''tags'' ''String'' True"
  let ?r = "exampleProperty ''owner'' ''Person'' False"
  let ?c = "emptyContext\<lparr>stack := [Name ''person''],
          json := JObj [(''person'', JObj [(''tags'', JArr [JStr ''a'', JStr ''b''])])]\<rparr>"
  let ?d = "emptyContext\<lparr>stack := [Name ''person'']\<rparr>"
  obtain component ctx' where f:
    "visitField exampleHelpers (visit exampleHelpers 0) ?f ?c = Returns component ctx'"
    by (simp add: evaluate)
  obtain component' ctx'' where r:
    "visitRelationship exampleHelpers ?r ?d = Returns component' ctx''"
    by (simp add: evaluate)
  have "stack ctx' = stack ?c"
    using path_stack_balance [where U = exampleHelpers and fuel = 0 and field = "?f"
        and ctx = "?c" and component = component and ctx' = ctx'] f
    by simp
  moreover have "stack ctx'' = stack ?d"
    using path_stack_balance [where U = exampleHelpers and relationship = "?r"
        and ctx = "?d" and component' = component' and ctx'' = ctx''] r
    by simp
  ultimately show ?thesis using f r by (simp add: emptyContext_def)
qed

section \<open>Dispatch\<close>

lemma recognised_simps [simp]:
  "recognised (Returns a c)" "recognised (Throws e c) = (\<not> isUnrecognised e)" "recognised OutOfFuel"
  by (simp_all add: recognised_def)

lemma recognised_bind:
  "recognised m \<Longrightarrow> (\<And>a c. recognised (f a c)) \<Longrightarrow> recognised (bind m f)"
  by (cases m) (simp_all add: bind_def)

lemma isNode_thing_of [simp]: "isNode (thing_of_property p)" "isNode (thing_of_declaration d)"
  by (cases p, simp_all) (cases d, simp_all)

lemma recognisingD: "recognising accept \<Longrightarrow> isNode t \<Longrightarrow> recognised (accept t ctx)"
  by (simp add: recognising_def)

lemma visitSingletonField_recognised:
  assumes "recognising accept"
  shows "recognised (visitSingletonField U accept f ctx ps)"
  unfolding visitSingletonField_def Let_def
  by (auto split: option.split sum.split selectorEntry.split
        simp: recognisingD [OF assms] intro!: recognised_bind)

lemma visitFieldElements_recognised:
  "recognising accept \<Longrightarrow> recognised (visitFieldElements U accept f ps is ctx)"
  by (induction "is" arbitrary: ctx)
     (auto intro!: recognised_bind visitSingletonField_recognised)

lemma mapValue_recognised:
  "(\<And>is c. recognised (callback is c)) \<Longrightarrow> recognised (mapValue v callback ctx)"
  unfolding mapValue_def
  by (auto split: jsval.split intro!: recognised_bind)

lemma visitField_recognised:
  "recognising accept \<Longrightarrow> recognised (visitField U accept f ctx)"
  unfolding visitField_def Let_def
  by (auto intro!: recognised_bind mapValue_recognised visitFieldElements_recognised
        visitSingletonField_recognised)

lemma visitRelationshipElements_recognised:
  "recognised (visitRelationshipElements ps is ctx)"
  by (induction "is" arbitrary: ctx) (auto simp: Let_def intro!: recognised_bind)

lemma visitRelationship_recognised: "recognised (visitRelationship U r ctx)"
  unfolding visitRelationship_def Let_def
  by (auto split: sum.split
        intro!: recognised_bind mapValue_recognised visitRelationshipElements_recognised)

lemma acceptAt_recognised: "recognising accept \<Longrightarrow> recognised (acceptAt accept ps i ctx)"
  unfolding acceptAt_def by (simp add: recognisingD)

lemma acceptAll_recognised:
  assumes "recognising accept"
  shows "recognised (acceptAll accept ps ctx)"
  by (induction ps arbitrary: ctx) (auto simp: recognisingD [OF assms] intro!: recognised_bind)

lemma recordIdentifier_recognised: "recognised (recordIdentifier c ctx)"
  unfolding recordIdentifier_def Let_def by (auto split: option.split)

lemma visitClassDeclaration_recognised:
  "recognising accept \<Longrightarrow> recognised (visitClassDeclaration accept c ctx)"
  unfolding visitClassDeclaration_def visitMonetaryAmount_def visitDuration_def
    visitAccordParty_def Let_def
  by (intro recognised_bind recordIdentifier_recognised)
     (auto intro!: recognised_bind acceptAt_recognised acceptAll_recognised)

lemma dispatch_recognising: "recognising accept \<Longrightarrow> recognising (dispatch U accept)"
  unfolding recognising_def
proof (intro allI impI)
  fix t ctx
  assume a: "\<forall>t ctx. isNode t \<longrightarrow> recognised (accept t ctx)" and n: "isNode t"
  from a have r: "recognising accept" by (simp add: recognising_def)
  from n show "recognised (dispatch U accept t ctx)"
    unfolding dispatch_def Let_def
    by (cases t)
       (simp_all add: visitEnumDeclaration_def Let_def visitClassDeclaration_recognised [OF r]
          visitField_recognised [OF r] visitRelationship_recognised)
qed

lemma visit_recognising: "recognising (visit U fuel)"
  by (induction fuel) (simp_all add: recognising_def dispatch_recognising [unfolded recognising_def])

text \<open>
  C2. \<^verbatim>\<open>visit\<close> dispatches on the class of the node alone: each of the four node
  classes goes to its own method, any other value throws the unrecognised-type error to
  the caller, and no visit of a node of the four classes ever throws that error.
\<close>

theorem visit_dispatch:
  "visit U (Suc fuel) (EnumDeclaration e) ctx
     = visitEnumDeclaration e
         (installFileWriter ctx)
   \<and> visit U (Suc fuel) (ClassDeclaration c) ctx
     = visitClassDeclaration (visit U fuel) c
         (installFileWriter ctx)
   \<and> visit U (Suc fuel) (Field f) ctx
     = visitField U (visit U fuel) f
         (installFileWriter ctx)
   \<and> visit U (Suc fuel) (RelationshipDeclaration r) ctx
     = visitRelationship U r
         (installFileWriter ctx)
   \<and> visit U (Suc fuel) (Other v) ctx
     = Throws (UnrecognisedType v)
         (installFileWriter ctx)
   \<and> (isNode thing \<longrightarrow> visit U fuel' thing ctx \<noteq> Throws (UnrecognisedType w) ctx')"
proof -
  have "isNode thing \<Longrightarrow> visit U fuel' thing ctx \<noteq> Throws (UnrecognisedType w) ctx'"
    using recognisingD [OF visit_recognising, of thing U fuel' ctx] by auto
  then show ?thesis
    by (simp add: dispatch_def Let_def)
qed


theorem visit_dispatch_witness:
  "isNode (Field (exampleProperty ''name'' ''String'' False))
   \<and> visit exampleHelpers (Suc 0) (Field (exampleProperty ''name'' ''String'' False)) emptyContext
       \<noteq> Throws (UnrecognisedType JNull) emptyContext
   \<and> visit exampleHelpers (Suc 0) (Other (JStr ''x'')) emptyContext
       = Throws (UnrecognisedType (JStr ''x'')) (emptyContext\<lparr>fileWriter := Some new_Writer\<rparr>)"
proof -
  note dispatched = visit_dispatch [where U = exampleHelpers and fuel = 0 and fuel' = "Suc 0"
      and thing = "Field (exampleProperty ''name'' ''String'' False)" and ctx = emptyContext
      and w = JNull and ctx' = emptyContext and v = "JStr ''x''"]
  have node: "isNode (Field (exampleProperty ''name'' ''String'' False))"
    by simp
  have installed: "installFileWriter emptyContext = emptyContext\<lparr>fileWriter := Some new_Writer\<rparr>"
    by (simp add: installFileWriter_def emptyContext_def)
  note tail = dispatched [THEN conjunct2, THEN conjunct2, THEN conjunct2, THEN conjunct2]
  note other = tail [THEN conjunct1, unfolded installed]
  note never = tail [THEN conjunct2, rule_format, OF node]
  show ?thesis
    using node never other by (intro conjI)
qed

section \<open>Custom selectors\<close>






section \<open>Hidden properties\<close>

text \<open>
  C7. A field or relationship that is hidden by policy, or whose fully qualified name is
  in the hidden-fields set of the context, is visited to \<^verbatim>\<open>null\<close>: the context comes
  back as it was (nothing is pushed on the path stack), and this holds whatever the
  document and the path are, so neither is consulted.
\<close>

theorem hidden_property_skipped:
  assumes "isHidden U property
           \<or> (\<exists>hs. hiddenFields ctx = Some hs \<and> getFullyQualifiedName property \<in> set hs)"
  shows "visitField U accept property ctx = Returns (Value JNull) ctx
    \<and> visitRelationship U property ctx = Returns (Value JNull) ctx
    \<and> (\<forall>document path.
          visitField U accept property (ctx\<lparr>json := document, stack := path\<rparr>)
            = Returns (Value JNull) (ctx\<lparr>json := document, stack := path\<rparr>)
          \<and> visitRelationship U property (ctx\<lparr>json := document, stack := path\<rparr>)
            = Returns (Value JNull) (ctx\<lparr>json := document, stack := path\<rparr>))"
  using assms
  by (auto simp: visitField_def visitRelationship_def hideProperty_def)

theorem hidden_property_skipped_witness:
  "(\<exists>hs. hiddenFields (emptyContext\<lparr>hiddenFields := Some [''org.acme.Person.ssn'']\<rparr>) = Some hs
          \<and> getFullyQualifiedName (exampleProperty ''ssn'' ''String'' False) \<in> set hs)
   \<and> visitField exampleHelpers (visit exampleHelpers 0) (exampleProperty ''ssn'' ''String'' False)
        (emptyContext\<lparr>hiddenFields := Some [''org.acme.Person.ssn'']\<rparr>)
       = Returns (Value JNull) (emptyContext\<lparr>hiddenFields := Some [''org.acme.Person.ssn'']\<rparr>)
   \<and> visitRelationship exampleHelpers (exampleProperty ''ssn'' ''String'' False)
        (emptyContext\<lparr>hiddenFields := Some [''org.acme.Person.ssn'']\<rparr>)
       = Returns (Value JNull) (emptyContext\<lparr>hiddenFields := Some [''org.acme.Person.ssn'']\<rparr>)"
proof -
  let ?c = "emptyContext\<lparr>hiddenFields := Some [''org.acme.Person.ssn'']\<rparr>"
  let ?p = "exampleProperty ''ssn'' ''String'' False"
  have h: "\<exists>hs. hiddenFields ?c = Some hs \<and> getFullyQualifiedName ?p \<in> set hs"
    by (simp add: emptyContext_def exampleProperty_def)
  then have "isHidden exampleHelpers ?p \<or> (\<exists>hs. hiddenFields ?c = Some hs \<and> getFullyQualifiedName ?p \<in> set hs)"
    by (rule disjI2)
  note skipped = hidden_property_skipped [OF this, of "visit exampleHelpers 0"]
  from h skipped [THEN conjunct1] skipped [THEN conjunct2, THEN conjunct1]
  show ?thesis by (intro conjI)
qed

section \<open>Abstract classes\<close>

text \<open>
  C8. An abstract class declaration whose identifier field name, if it has one, names
  one of its properties is visited to \<^verbatim>\<open>null\<close>; the return comes after the
  \<^verbatim>\<open>hideIdentifiers\<close> block, so with that flag set the fully qualified name of the
  identifier field is appended to the hidden-fields set of the returned context.
\<close>

theorem abstract_class_null:
  assumes "isAbstract classDeclaration"
    and "\<forall>n. getIdentifierFieldName classDeclaration = Some n \<and> n \<noteq> []
             \<longrightarrow> getProperty classDeclaration n \<noteq> None"
  shows "\<exists>ctx'. visitClassDeclaration accept classDeclaration ctx = Returns (Value JNull) ctx'
    \<and> (\<not> hideIdentifiers ctx \<longrightarrow> ctx' = ctx)
    \<and> (hideIdentifiers ctx \<longrightarrow>
         (\<forall>n idField. getIdentifierFieldName classDeclaration = Some n \<and> n \<noteq> []
             \<and> getProperty classDeclaration n = Some idField \<longrightarrow>
            hiddenFields ctx'
              = Some ((case hiddenFields ctx of None \<Rightarrow> [] | Some hs \<Rightarrow> hs)
                      @ [getFullyQualifiedName idField])
            \<and> hideProperty idField ctx'))"
  using assms
  by (auto simp: visitClassDeclaration_def recordIdentifier_def bind_def Let_def hideProperty_def
        split: option.split)

theorem abstract_class_null_witness:
  "isAbstract abstractAsset
   \<and> (\<exists>ctx'. visitClassDeclaration (visit exampleHelpers 0) abstractAsset
               (emptyContext\<lparr>hideIdentifiers := True\<rparr>) = Returns (Value JNull) ctx'
            \<and> hiddenFields ctx' = Some [''org.acme.Person.assetId''])"
proof -
  let ?c = "emptyContext\<lparr>hideIdentifiers := True\<rparr>"
  have a: "isAbstract abstractAsset"
    by (simp add: abstractAsset_def)
  have w: "\<forall>n. getIdentifierFieldName abstractAsset = Some n \<and> n \<noteq> []
             \<longrightarrow> getProperty abstractAsset n \<noteq> None"
    by (simp add: abstractAsset_def getProperty_def exampleProperty_def)
  have i: "getIdentifierFieldName abstractAsset = Some ''assetId'' \<and> ''assetId'' \<noteq> []
     \<and> getProperty abstractAsset ''assetId'' = Some (exampleProperty ''assetId'' ''String'' False)"
    by (simp add: abstractAsset_def getProperty_def exampleProperty_def)
  have h: "hideIdentifiers ?c" "hiddenFields ?c = None"
    by (simp_all add: emptyContext_def)
  from abstract_class_null [OF a w, of "visit exampleHelpers 0" ?c]
  obtain ctx' where r: "visitClassDeclaration (visit exampleHelpers 0) abstractAsset ?c = Returns (Value JNull) ctx'"
    and k: "hideIdentifiers ?c \<longrightarrow>
         (\<forall>n idField. getIdentifierFieldName abstractAsset = Some n \<and> n \<noteq> []
             \<and> getProperty abstractAsset n = Some idField \<longrightarrow>
            hiddenFields ctx'
              = Some ((case hiddenFields ?c of None \<Rightarrow> [] | Some hs \<Rightarrow> hs)
                      @ [getFullyQualifiedName idField])
            \<and> hideProperty idField ctx')"
    by blast
  from k [rule_format, OF h(1) i] have "hiddenFields ctx' = Some [''org.acme.Person.assetId'']"
    by (simp add: h(2) exampleProperty_def)
  with a r show ?thesis by blast
qed

section \<open>The file writer\<close>

lemma kept_frame:
  "post m (kept c) (\<lambda>e. frame c) \<Longrightarrow> post m (\<lambda>a. frame c) (\<lambda>e. frame c)"
  by (erule post_weaken) (simp_all add: kept_def)

lemma dispatch_frame:
  assumes "tidy accept"
  shows "post (dispatch U accept thing ctx) (\<lambda>a. frame (installFileWriter ctx))
           (\<lambda>e. frame (installFileWriter ctx))"
  by (cases thing)
     (simp_all add: dispatch_def kept_frame [OF visitEnumDeclaration_tidy]
        kept_frame [OF visitClassDeclaration_tidy [OF assms]]
        kept_frame [OF visitField_tidy [OF assms]]
        kept_frame [OF visitRelationship_tidy])

lemma fileWriter_installFileWriter:
  "fileWriter (installFileWriter ctx)
     = (case fileWriter ctx of None \<Rightarrow> Some new_Writer | Some w \<Rightarrow> Some w)"
  by (simp add: installFileWriter_def split: option.split)

lemma frame_installed_fileWriter:
  "frame (installFileWriter ctx) c \<Longrightarrow> fileWriter c = fileWriter (installFileWriter ctx)"
  by (auto simp: frame_def installFileWriter_def split: if_splits)

text \<open>
  C10. \<^verbatim>\<open>visit\<close> first installs a new \<^verbatim>\<open>Writer\<close> into a context that has no
  \<^verbatim>\<open>fileWriter\<close> and leaves a context that has one as it is; the method it
  dispatches to receives that context, and when the call returns or throws the
  \<^verbatim>\<open>fileWriter\<close> of the context is the installed one, or the one it already had.
\<close>

theorem fileWriter_installed:
  "(fileWriter ctx = None \<longrightarrow> installFileWriter ctx = ctx\<lparr>fileWriter := Some new_Writer\<rparr>)
   \<and> (fileWriter ctx \<noteq> None \<longrightarrow> installFileWriter ctx = ctx)
   \<and> visit U (Suc fuel) (EnumDeclaration e) ctx = visitEnumDeclaration e (installFileWriter ctx)
   \<and> visit U (Suc fuel) (ClassDeclaration c) ctx
       = visitClassDeclaration (visit U fuel) c (installFileWriter ctx)
   \<and> visit U (Suc fuel) (Field f) ctx = visitField U (visit U fuel) f (installFileWriter ctx)
   \<and> visit U (Suc fuel) (RelationshipDeclaration r) ctx
       = visitRelationship U r (installFileWriter ctx)
   \<and> (visit U fuel' thing ctx = Returns component ctx' \<or> visit U fuel' thing ctx = Throws err ctx'
        \<longrightarrow> fileWriter ctx'
              = (case fileWriter ctx of None \<Rightarrow> Some new_Writer | Some w \<Rightarrow> Some w))"
proof -
  have "fileWriter ctx' = (case fileWriter ctx of None \<Rightarrow> Some new_Writer | Some w \<Rightarrow> Some w)"
    if finished: "visit U fuel' thing ctx = Returns component ctx' \<or> visit U fuel' thing ctx = Throws err ctx'"
  proof (cases fuel')
    case 0
    with finished show ?thesis by simp
  next
    case (Suc n)
    have "post (dispatch U (visit U n) thing ctx) (\<lambda>a. frame (installFileWriter ctx))
           (\<lambda>e. frame (installFileWriter ctx))"
      by (rule dispatch_frame [OF visit_tidy])
    with finished Suc have "frame (installFileWriter ctx) ctx'"
      by auto
    then show ?thesis
      by (simp add: frame_installed_fileWriter fileWriter_installFileWriter)
  qed
  then show ?thesis
    by (simp add: dispatch_def installFileWriter_def)
qed

theorem fileWriter_installed_witness:
  "fileWriter emptyContext = None
   \<and> (\<exists>component ctx'.
         visit exampleHelpers (Suc 0) (Field (exampleProperty ''name'' ''String'' False)) emptyContext
           = Returns component ctx'
         \<and> fileWriter ctx' = Some new_Writer)
   \<and> (\<exists>component ctx'.
         visit exampleHelpers (Suc 0) (Field (exampleProperty ''name'' ''String'' False))
           (emptyContext\<lparr>fileWriter := Some (Writer [''line''])\<rparr>)
           = Returns component ctx'
         \<and> fileWriter ctx' = Some (Writer [''line'']))"
proof -
  let ?t = "Field (exampleProperty ''name'' ''String'' False)"
  let ?c = "emptyContext\<lparr>fileWriter := Some (Writer [''line''])\<rparr>"
  have none: "fileWriter emptyContext = None" and some: "fileWriter ?c = Some (Writer [''line''])"
    by (simp_all add: emptyContext_def)
  obtain a ctx1 where r1: "visit exampleHelpers (Suc 0) ?t emptyContext = Returns a ctx1"
    by (simp add: evaluate)
  obtain b ctx2 where r2: "visit exampleHelpers (Suc 0) ?t ?c = Returns b ctx2"
    by (simp add: evaluate)
  note first = fileWriter_installed [where U = exampleHelpers and fuel' = "Suc 0" and thing = "?t"
      and ctx = emptyContext and component = a and ctx' = ctx1,
      THEN conjunct2, THEN conjunct2, THEN conjunct2, THEN conjunct2, THEN conjunct2,
      THEN conjunct2, rule_format, OF disjI1, OF r1]
  note second = fileWriter_installed [where U = exampleHelpers and fuel' = "Suc 0" and thing = "?t"
      and ctx = "?c" and component = b and ctx' = ctx2,
      THEN conjunct2, THEN conjunct2, THEN conjunct2, THEN conjunct2, THEN conjunct2,
      THEN conjunct2, rule_format, OF disjI1, OF r2]
  from first none have "fileWriter ctx1 = Some new_Writer" by simp
  moreover from second some have "fileWriter ctx2 = Some (Writer [''line''])" by simp
  ultimately show ?thesis using none r1 r2 by blast
qed

section \<open>Enumerations\<close>

text \<open>
  C5, as amended. \<^verbatim>\<open>visitEnumDeclaration\<close> returns a dropdown whose value is the
  document's value at the current path and whose options are one per declared literal,
  in declaration order, each with value and display text equal to the literal's name
  and with the key \<open>option-\<close> followed by the literal's name.
\<close>

theorem enum_dropdown:
  "\<exists>ps. visitEnumDeclaration enumDeclaration ctx
          = Returns (Element ConcertoDropdown (JStr (''enum-'' @ pathToString (stack ctx))) ps []) ctx
      \<and> lookupProp ps ''value'' = Some (PVal (get (json ctx) (pathToString (stack ctx))))
      \<and> lookupProp ps ''options''
          = Some (POptions (map (\<lambda>literal. \<lparr>ddKey = ''option-'' @ getName literal,
                                            ddValue = getName literal,
                                            ddText = getName literal\<rparr>)
                              (enumProperties enumDeclaration)))"
  by (simp add: visitEnumDeclaration_def Let_def lookupProp_def)

theorem enum_dropdown_witness:
  "\<exists>ps. visitEnumDeclaration statusEnum
          (emptyContext\<lparr>stack := [Name ''status''], json := JObj [(''status'', JStr ''B'')]\<rparr>)
        = Returns (Element ConcertoDropdown (JStr ''enum-status'') ps [])
            (emptyContext\<lparr>stack := [Name ''status''], json := JObj [(''status'', JStr ''B'')]\<rparr>)
      \<and> lookupProp ps ''value'' = Some (PVal (JStr ''B''))
      \<and> lookupProp ps ''options''
          = Some (POptions [\<lparr>ddKey = ''option-A'', ddValue = ''A'', ddText = ''A''\<rparr>,
                            \<lparr>ddKey = ''option-B'', ddValue = ''B'', ddText = ''B''\<rparr>,
                            \<lparr>ddKey = ''option-C'', ddValue = ''C'', ddText = ''C''\<rparr>])"
proof -
  let ?c = "emptyContext\<lparr>stack := [Name ''status''], json := JObj [(''status'', JStr ''B'')]\<rparr>"
  have path: "pathToString (stack ?c) = ''status''"
    by (simp add: evaluate)
  have doc: "get (json ?c) ''status'' = JStr ''B''"
    by (simp add: evaluate)
  have literals: "map (\<lambda>literal. \<lparr>ddKey = ''option-'' @ getName literal,
                                            ddValue = getName literal,
                                            ddText = getName literal\<rparr>)
                              (enumProperties statusEnum)
     = [\<lparr>ddKey = ''option-A'', ddValue = ''A'', ddText = ''A''\<rparr>,
                            \<lparr>ddKey = ''option-B'', ddValue = ''B'', ddText = ''B''\<rparr>,
                            \<lparr>ddKey = ''option-C'', ddValue = ''C'', ddText = ''C''\<rparr>]"
    by (simp add: statusEnum_def exampleProperty_def)
  from enum_dropdown [of statusEnum ?c] show ?thesis
    unfolding path doc literals by simp
qed

text \<open>
  C5, as stated, asks every option's key to equal the literal's name. For the
  enumeration with the literals A, B, C and the document value \<open>B\<close> the value of the
  dropdown is \<open>B\<close>, but its options are not the ones keyed A, B, C.
\<close>

theorem enum_option_keys_counterexample:
  "returnedProp
     (visitEnumDeclaration statusEnum
        (emptyContext\<lparr>stack := [Name ''status''], json := JObj [(''status'', JStr ''B'')]\<rparr>))
     ''value'' = Some (PVal (JStr ''B''))
   \<and> returnedProp
     (visitEnumDeclaration statusEnum
        (emptyContext\<lparr>stack := [Name ''status''], json := JObj [(''status'', JStr ''B'')]\<rparr>))
     ''options''
     \<noteq> Some (POptions [\<lparr>ddKey = ''A'', ddValue = ''A'', ddText = ''A''\<rparr>,
                       \<lparr>ddKey = ''B'', ddValue = ''B'', ddText = ''B''\<rparr>,
                       \<lparr>ddKey = ''C'', ddValue = ''C'', ddText = ''C''\<rparr>])"
  by (simp add: returnedProp_def statusEnum_def evaluate)

section \<open>Array containers\<close>



lemma pop_push [simp]: "pop (push s ctx) = ctx"
  by (simp add: pop_def push_def)

lemma push_fields [simp]:
  "json (push s ctx) = json ctx"
  "modelManager (push s ctx) = modelManager ctx"
  "includeOptionalFields (push s ctx) = includeOptionalFields ctx"
  "includeSampleData (push s ctx) = includeSampleData ctx"
  by (simp_all add: push_def)

lemma visitRelationshipElements_closed:
  "visitRelationshipElements ps is ctx
     = Returns
         (map (\<lambda>i. Element ConcertoArrayElement
                      (JStr (''relationship-'' @ pathToString (stack ctx @ [Index i]) @ ''-'' @ show_nat i))
                      (ps @ [(''index'', PVal (JNum (int i)))])
                      [Element ConcertoRelationship JUndefined
                         (ps @ [(''id'', PVal (JStr (pathToString (stack ctx @ [Index i])))),
                                (''value'', PVal (get (json ctx) (pathToString (stack ctx @ [Index i]))))])
                         []])
            is)
         ctx"
  by (induction "is" arbitrary: ctx) (simp_all add: Let_def bind_def)













section \<open>Termination\<close>

lemma halts_simps [simp]:
  "halts (Returns a c)" "halts (Throws e c)" "\<not> halts OutOfFuel"
  by (simp_all add: halts_def)

lemma halts_bind:
  "halts m \<Longrightarrow> (\<And>a c. m = Returns a c \<Longrightarrow> halts (f a c)) \<Longrightarrow> halts (bind m f)"
  by (cases m) (simp_all add: bind_def)

lemma readyD: "ready accept mm t \<Longrightarrow> modelManager ctx = mm \<Longrightarrow> halts (accept t ctx)"
  by (simp add: ready_def)

lemma tidy_modelManager:
  "post m (kept ctx) (\<lambda>e. frame ctx) \<Longrightarrow> m = Returns a c \<Longrightarrow> modelManager c = modelManager ctx"
  by (simp add: kept_def frame_def)

lemma visitSingletonField_halts:
  assumes "\<forall>d\<in>set (fieldReferences U (modelManager ctx) f).
             ready accept (modelManager ctx) (thing_of_declaration d)"
  shows "halts (visitSingletonField U accept f ctx ps)"
proof (cases "isPrimitive f")
  case True
  then show ?thesis
    by (simp add: visitSingletonField_def Let_def split: option.split selectorEntry.split)
next
  case False
  show ?thesis
  proof (cases "getTypeDeclaration (modelManager ctx) (getFullyQualifiedTypeName f)")
    case None
    with False show ?thesis by (simp add: visitSingletonField_def Let_def)
  next
    case (Some declared)
    show ?thesis
    proof (cases "findConcreteSubclass U declared")
      case (Inl msg)
      with False Some show ?thesis by (simp add: visitSingletonField_def Let_def)
    next
      case (Inr type)
      with False Some assms have "halts (accept (thing_of_declaration type) ctx)"
        by (simp add: fieldReferences_def ready_def)
      with False Some Inr show ?thesis
        by (simp add: visitSingletonField_def Let_def halts_bind)
    qed
  qed
qed

lemma visitFieldElements_halts:
  assumes "tidy accept"
    and "\<forall>d\<in>set (fieldReferences U mm f). ready accept mm (thing_of_declaration d)"
    and "modelManager ctx = mm"
  shows "halts (visitFieldElements U accept f ps is ctx)"
  using assms(3)
proof (induction "is" arbitrary: ctx)
  case Nil
  show ?case by simp
next
  case (Cons i "is")
  have first: "halts (visitSingletonField U accept f (push (Index i) ctx) ps)"
    using assms(2) Cons.prems by (intro visitSingletonField_halts) (simp add: push_def)
  show ?case
    unfolding visitFieldElements.simps
  proof (rule halts_bind [OF first])
    fix inner c
    assume "visitSingletonField U accept f (push (Index i) ctx) ps = Returns inner c"
    from tidy_modelManager [OF visitSingletonField_tidy [OF assms(1)] this] Cons.prems
    have "modelManager (pop c) = mm"
      by (simp add: pop_def push_def)
    from Cons.IH [OF this]
    show "halts (bind (visitFieldElements U accept f ps is (pop c))
            (\<lambda>others ctx''.
               Returns
                 (Element ConcertoArrayElement
                    (JStr (getName f @ ''_wrapper['' @ show_nat i @ '']''))
                    (ps @ [(''index'', PVal (JNum (int i)))]) [inner] # others)
                 ctx''))"
      by (rule halts_bind) simp
  qed
qed

lemma mapValue_halts:
  "(\<And>is. halts (callback is ctx)) \<Longrightarrow> halts (mapValue v callback ctx)"
  by (auto simp: mapValue_def split: jsval.split intro!: halts_bind)

lemma visitField_halts:
  assumes "tidy accept"
    and "\<forall>d\<in>set (fieldReferences U mm f). ready accept mm (thing_of_declaration d)"
    and "modelManager ctx = mm"
  shows "halts (visitField U accept f ctx)"
proof -
  have mm: "modelManager (push (Name (getName f)) ctx) = mm"
    using assms(3) by (simp add: push_def)
  have "halts (visitSingletonField U accept f (push (Name (getName f)) ctx) ps)" for ps
    using assms(2) mm by (intro visitSingletonField_halts) simp
  moreover have "halts (visitFieldElements U accept f ps is (push (Name (getName f)) ctx))"
    for ps "is"
    by (rule visitFieldElements_halts [OF assms(1,2) mm])
  ultimately show ?thesis
    by (auto simp: visitField_def Let_def intro!: halts_bind mapValue_halts)
qed

lemma visitRelationshipElements_halts: "halts (visitRelationshipElements ps is ctx)"
  by (simp add: visitRelationshipElements_closed)

lemma visitRelationship_halts: "halts (visitRelationship U r ctx)"
  by (auto simp: visitRelationship_def Let_def split: sum.split
        intro!: halts_bind mapValue_halts visitRelationshipElements_halts)

lemma acceptAll_halts:
  assumes "tidy accept"
    and "\<forall>p\<in>set ps. ready accept mm (thing_of_property p)"
    and "modelManager ctx = mm"
  shows "halts (acceptAll accept ps ctx)"
  using assms(2,3)
proof (induction ps arbitrary: ctx)
  case Nil
  show ?case by simp
next
  case (Cons p ps)
  have first: "halts (accept (thing_of_property p) ctx)"
    using Cons.prems by (simp add: ready_def)
  show ?case
    unfolding acceptAll.simps
  proof (rule halts_bind [OF first])
    fix component c
    assume "accept (thing_of_property p) ctx = Returns component c"
    from tidy_modelManager [OF tidyD [OF assms(1)] this] Cons.prems
    have "modelManager c = mm" by simp
    with Cons.IH Cons.prems(1)
    show "halts (bind (acceptAll accept ps c) (\<lambda>others ctx''. Returns (component # others) ctx''))"
      by (intro halts_bind) simp_all
  qed
qed

lemma acceptAt_halts:
  assumes "\<forall>p\<in>set ps. ready accept mm (thing_of_property p)"
    and "modelManager ctx = mm"
  shows "halts (acceptAt accept ps i ctx)"
  using assms by (simp add: acceptAt_def ready_def)


lemma composite_halts:
  assumes "tidy accept"
    and "\<forall>p\<in>set (getProperties c). ready accept mm (thing_of_property p)"
    and "modelManager ctx = mm"
  shows "halts (visitMonetaryAmount accept c ctx)" "halts (visitDuration accept c ctx)"
    "halts (visitAccordParty accept c ctx)"
proof -
  have first: "halts (acceptAt accept (getProperties c) 0 (ctx\<lparr>skipLabel := True\<rparr>))"
    using assms(2,3) by (intro acceptAt_halts [where mm = mm]) simp_all
  have second: "halts (acceptAt accept (getProperties c) 1 c1)"
    if "acceptAt accept (getProperties c) 0 (ctx\<lparr>skipLabel := True\<rparr>) = Returns a c1" for a c1
  proof -
    from tidy_modelManager [OF acceptAt_tidy [OF assms(1)] that] assms(3)
    have "modelManager c1 = mm" by simp
    with assms(2) show ?thesis by (intro acceptAt_halts [where mm = mm])
  qed
  show "halts (visitMonetaryAmount accept c ctx)"
    unfolding visitMonetaryAmount_def Let_def
    by (intro halts_bind first second) simp_all
  show "halts (visitDuration accept c ctx)"
    unfolding visitDuration_def Let_def
    by (intro halts_bind first second) simp_all
  show "halts (visitAccordParty accept c ctx)"
    unfolding visitAccordParty_def Let_def
    by (intro halts_bind first) simp_all
qed

lemma recordIdentifier_halts: "halts (recordIdentifier c ctx)"
  by (simp add: recordIdentifier_def Let_def split: option.split)

lemma visitClassDeclaration_halts:
  assumes "tidy accept"
    and "\<not> isAbstract c \<longrightarrow> (\<forall>p\<in>set (getProperties c). ready accept mm (thing_of_property p))"
    and "modelManager ctx = mm"
  shows "halts (visitClassDeclaration accept c ctx)"
  unfolding visitClassDeclaration_def
proof (rule halts_bind [OF recordIdentifier_halts])
  fix u c1
  assume "recordIdentifier c ctx = Returns u c1"
  from tidy_modelManager [OF recordIdentifier_tidy this] assms(3)
  have mm: "modelManager c1 = mm" by simp
  show "halts
          (if isAbstract c then Returns (Value JNull) c1
           else if classFullyQualifiedName c
                   \<in> set [''org.accordproject.money.MonetaryAmount'',
                           ''org.accordproject.money.DigitalMonetaryAmount'']
           then visitMonetaryAmount accept c c1
           else if classFullyQualifiedName c
                   \<in> set [''org.accordproject.time.Duration'', ''org.accordproject.time.Period'']
           then visitDuration accept c c1
           else if classFullyQualifiedName c
                   \<in> set [''org.accordproject.cicero.contract.AccordParty'']
           then visitAccordParty accept c c1
           else bind (acceptAll accept (getProperties c) c1)
                  (\<lambda>components ctx2. Returns (Elements components) ctx2))"
  proof (cases "isAbstract c")
    case True
    then show ?thesis by simp
  next
    case False
    with assms(2) have props: "\<forall>p\<in>set (getProperties c). ready accept mm (thing_of_property p)"
      by simp
    have "halts (bind (acceptAll accept (getProperties c) c1)
                  (\<lambda>components ctx2. Returns (Elements components) ctx2))"
      by (intro halts_bind acceptAll_halts [OF assms(1) props mm]) simp
    with False composite_halts [OF assms(1) props mm] show ?thesis
      by simp
  qed
qed

lemma modelManager_installFileWriter [simp]:
  "modelManager (installFileWriter ctx) = modelManager ctx"
  by (simp add: installFileWriter_def)

lemma ready_property:
  assumes "tidy accept"
    and "\<forall>d\<in>set (propertyReferences U mm p). ready accept mm (thing_of_declaration d)"
  shows "ready (dispatch U accept) mm (thing_of_property p)"
proof (cases p)
  case (FieldDecl f)
  with assms(2) have "\<forall>d\<in>set (fieldReferences U mm f). ready accept mm (thing_of_declaration d)"
    by simp
  with FieldDecl show ?thesis
    by (simp add: ready_def dispatch_def visitField_halts [OF assms(1)])
next
  case (RelationshipDecl r)
  then show ?thesis
    by (simp add: ready_def dispatch_def visitRelationship_halts)
qed

lemma ready_declaration:
  assumes "tidy accept"
    and "\<forall>d'\<in>set (references U mm d). ready accept mm (thing_of_declaration d')"
  shows "ready (dispatch U (dispatch U accept)) mm (thing_of_declaration d)"
proof (cases d)
  case (DEnum e)
  then show ?thesis
    by (simp add: ready_def dispatch_def visitEnumDeclaration_def Let_def)
next
  case (DClass c)
  have "ready (dispatch U accept) mm (thing_of_property p)"
    if "\<not> isAbstract c" "p \<in> set (getProperties c)" for p
  proof (rule ready_property [OF assms(1)])
    from that DClass have "set (propertyReferences U mm p) \<subseteq> set (references U mm d)"
      by auto
    with assms(2) show "\<forall>d\<in>set (propertyReferences U mm p). ready accept mm (thing_of_declaration d)"
      by blast
  qed
  with DClass show ?thesis
    by (simp add: ready_def dispatch_def
          visitClassDeclaration_halts [OF dispatch_tidy [OF assms(1)], where mm = mm])
qed

lemma bounded_all:
  "\<forall>x\<in>set xs. \<exists>N. \<forall>n\<ge>N. Q x (n::nat) \<Longrightarrow> \<exists>N. \<forall>x\<in>set xs. \<forall>n\<ge>N. Q x n"
proof (induction xs)
  case Nil
  show ?case by simp
next
  case (Cons x xs)
  then obtain N1 N2 where "\<forall>n\<ge>N1. Q x n" "\<forall>y\<in>set xs. \<forall>n\<ge>N2. Q y n"
    by auto
  then have "\<forall>y\<in>set (x # xs). \<forall>n\<ge>max N1 N2. Q y n"
    by auto
  then show ?case ..
qed

lemma acyclic_finite_Range_wf:
  assumes "acyclic r" and "finite (Range r)"
  shows "wf (r\<inverse>)"
proof (rule wfUNIVI)
  fix P :: "'a \<Rightarrow> bool" and x
  assume step: "\<forall>x. (\<forall>y. (y, x) \<in> r\<inverse> \<longrightarrow> P y) \<longrightarrow> P x"
  define s where "s = r \<inter> (Range r \<times> Range r)"
  have "finite s" "acyclic s"
    using assms by (auto simp: s_def intro: acyclic_subset)
  then have wfs: "wf (s\<inverse>)"
    by (rule finite_acyclic_wf_converse)
  have inner: "y \<in> Range r \<longrightarrow> P y" for y
  proof (induction y rule: wf_induct_rule [OF wfs])
    case (1 y)
    show ?case
    proof
      assume y: "y \<in> Range r"
      have "P z" if "(y, z) \<in> r" for z
      proof -
        from that y have "(z, y) \<in> s\<inverse>" "z \<in> Range r"
          by (auto simp: s_def)
        with 1 show ?thesis by blast
      qed
      with step show "P y" by blast
    qed
  qed
  have "P z" if "(x, z) \<in> r" for z
    using inner [of z] that by blast
  with step show "P x" by blast
qed

lemma references_in_model:
  "d' \<in> set (references U mm d)
   \<Longrightarrow> \<exists>n declared. (n, declared) \<in> set mm \<and> findConcreteSubclass U declared = Inr d'"
proof (cases d)
  case (DEnum e)
  assume "d' \<in> set (references U mm d)"
  with DEnum show ?thesis by simp
next
  case (DClass c)
  assume "d' \<in> set (references U mm d)"
  with DClass obtain p where "p \<in> set (getProperties c)" "d' \<in> set (propertyReferences U mm p)"
    by (auto split: if_splits)
  from this(2) show ?thesis
    by (cases p)
       (fastforce simp: fieldReferences_def getTypeDeclaration_def
          split: if_splits option.splits sum.splits
          dest!: map_of_SomeD sym [of "Some _" "map_of _ _"])+
qed

lemma finite_Range_referenceGraph: "finite (Range (referenceGraph U mm))"
proof -
  have "Range (referenceGraph U mm)
          \<subseteq> (\<lambda>declared. case findConcreteSubclass U declared of Inr d \<Rightarrow> d | Inl m \<Rightarrow> declared)
              ` snd ` set mm"
  proof
    fix d' assume "d' \<in> Range (referenceGraph U mm)"
    then obtain d where "d' \<in> set (references U mm d)"
      by (auto simp: referenceGraph_def)
    from references_in_model [OF this] obtain n declared where
      "(n, declared) \<in> set mm" "findConcreteSubclass U declared = Inr d'"
      by blast
    then show "d' \<in> (\<lambda>declared. case findConcreteSubclass U declared of Inr d \<Rightarrow> d | Inl m \<Rightarrow> declared)
              ` snd ` set mm"
      by force
  qed
  then show ?thesis
    by (rule finite_subset) simp
qed

lemma visit_Suc: "visit U (Suc fuel) = dispatch U (visit U fuel)"
  by (intro ext) simp

lemma declaration_ready:
  assumes "acyclic (referenceGraph U mm)"
  shows "\<exists>N. \<forall>n\<ge>N. ready (visit U n) mm (thing_of_declaration d)"
proof -
  have "wf ((referenceGraph U mm)\<inverse>)"
    by (rule acyclic_finite_Range_wf [OF assms finite_Range_referenceGraph])
  then show ?thesis
  proof (induction d rule: wf_induct_rule)
    case (less d)
    have "\<forall>d'\<in>set (references U mm d). \<exists>N. \<forall>n\<ge>N. ready (visit U n) mm (thing_of_declaration d')"
      using less by (simp add: referenceGraph_def)
    from bounded_all [OF this] obtain N where
      N: "\<forall>d'\<in>set (references U mm d). \<forall>n\<ge>N. ready (visit U n) mm (thing_of_declaration d')"
      by blast
    have "ready (visit U n) mm (thing_of_declaration d)" if "n \<ge> N + 2" for n
    proof -
      from that obtain k where n: "n = Suc (Suc k)" and k: "k \<ge> N"
        by (metis add_2_eq_Suc' le_Suc_ex add_Suc le_add1)
      from N k have "\<forall>d'\<in>set (references U mm d). ready (visit U k) mm (thing_of_declaration d')"
        by blast
      from ready_declaration [OF visit_tidy this] show ?thesis
        by (simp only: n visit_Suc)
    qed
    then show ?case by blast
  qed
qed

lemma extendsD: "extends accept accept' \<Longrightarrow> halts (accept t c) \<Longrightarrow> accept' t c = accept t c"
  by (simp add: extends_def)

lemma halts_bindD: "halts (bind m f) \<Longrightarrow> halts m"
  by (cases m) (simp_all add: bind_def)

lemma bind_stable:
  assumes "halts (bind m f)" and "m' = m"
    and "\<And>a c. m = Returns a c \<Longrightarrow> halts (f a c) \<Longrightarrow> f' a c = f a c"
  shows "bind m' f' = bind m f"
  using assms by (cases m) (simp_all add: bind_def)

lemma visitSingletonField_stable:
  assumes "extends accept accept'" and "halts (visitSingletonField U accept f ctx ps)"
  shows "visitSingletonField U accept' f ctx ps = visitSingletonField U accept f ctx ps"
  using assms(2)
  unfolding visitSingletonField_def Let_def
  by (auto split: option.splits sum.splits if_splits selectorEntry.splits
        intro!: bind_stable extendsD [OF assms(1)] dest: halts_bindD)

lemma visitFieldElements_stable:
  assumes "extends accept accept'" and "halts (visitFieldElements U accept f ps is ctx)"
  shows "visitFieldElements U accept' f ps is ctx = visitFieldElements U accept f ps is ctx"
  using assms(2)
proof (induction "is" arbitrary: ctx)
  case Nil
  show ?case by simp
next
  case (Cons i "is")
  from Cons.prems have first: "halts (visitSingletonField U accept f (push (Index i) ctx) ps)"
    by (auto dest: halts_bindD)
  show ?case
    unfolding visitFieldElements.simps
  proof (rule bind_stable [OF Cons.prems [unfolded visitFieldElements.simps]
        visitSingletonField_stable [OF assms(1) first]])
    fix inner c
    assume h: "halts (bind (visitFieldElements U accept f ps is (pop c))
            (\<lambda>others ctx''.
               Returns
                 (Element ConcertoArrayElement
                    (JStr (getName f @ ''_wrapper['' @ show_nat i @ '']''))
                    (ps @ [(''index'', PVal (JNum (int i)))]) [inner] # others)
                 ctx''))"
    from Cons.IH [OF halts_bindD [OF h]]
    show "bind (visitFieldElements U accept' f ps is (pop c))
            (\<lambda>others ctx''.
               Returns
                 (Element ConcertoArrayElement
                    (JStr (getName f @ ''_wrapper['' @ show_nat i @ '']''))
                    (ps @ [(''index'', PVal (JNum (int i)))]) [inner] # others)
                 ctx'')
          = bind (visitFieldElements U accept f ps is (pop c))
            (\<lambda>others ctx''.
               Returns
                 (Element ConcertoArrayElement
                    (JStr (getName f @ ''_wrapper['' @ show_nat i @ '']''))
                    (ps @ [(''index'', PVal (JNum (int i)))]) [inner] # others)
                 ctx'')"
      by simp
  qed
qed

lemma mapValue_stable:
  assumes "halts (mapValue v callback ctx)"
    and "\<And>is. halts (callback is ctx) \<Longrightarrow> callback' is ctx = callback is ctx"
  shows "mapValue v callback' ctx = mapValue v callback ctx"
  using assms
  by (auto simp: mapValue_def split: jsval.splits dest!: halts_bindD)

lemma visitField_stable:
  assumes "extends accept accept'" and "halts (visitField U accept f ctx)"
  shows "visitField U accept' f ctx = visitField U accept f ctx"
  using assms(2)
  unfolding visitField_def Let_def
  by (auto split: if_splits dest!: halts_bindD
        simp: visitSingletonField_stable [OF assms(1)]
              mapValue_stable [OF _ visitFieldElements_stable [OF assms(1)]])

lemma acceptAt_stable:
  assumes "extends accept accept'" and "halts (acceptAt accept ps i ctx)"
  shows "acceptAt accept' ps i ctx = acceptAt accept ps i ctx"
  using assms(2) by (auto simp: acceptAt_def extendsD [OF assms(1)])

lemma acceptAll_stable:
  assumes "extends accept accept'" and "halts (acceptAll accept ps ctx)"
  shows "acceptAll accept' ps ctx = acceptAll accept ps ctx"
  using assms(2)
proof (induction ps arbitrary: ctx)
  case Nil
  show ?case by simp
next
  case (Cons p ps)
  from Cons.prems have first: "halts (accept (thing_of_property p) ctx)"
    by (auto dest: halts_bindD)
  show ?case
    unfolding acceptAll.simps
  proof (rule bind_stable [OF Cons.prems [unfolded acceptAll.simps] extendsD [OF assms(1) first]])
    fix component c
    assume h: "halts (bind (acceptAll accept ps c)
                 (\<lambda>others ctx''. Returns (component # others) ctx''))"
    from Cons.IH [OF halts_bindD [OF h]]
    show "bind (acceptAll accept' ps c) (\<lambda>others ctx''. Returns (component # others) ctx'')
          = bind (acceptAll accept ps c) (\<lambda>others ctx''. Returns (component # others) ctx'')"
      by simp
  qed
qed

lemma composite_stable:
  assumes "extends accept accept'"
  shows "halts (visitMonetaryAmount accept c ctx)
           \<Longrightarrow> visitMonetaryAmount accept' c ctx = visitMonetaryAmount accept c ctx"
    and "halts (visitDuration accept c ctx)
           \<Longrightarrow> visitDuration accept' c ctx = visitDuration accept c ctx"
    and "halts (visitAccordParty accept c ctx)
           \<Longrightarrow> visitAccordParty accept' c ctx = visitAccordParty accept c ctx"
  unfolding visitMonetaryAmount_def visitDuration_def visitAccordParty_def Let_def
  by (auto intro!: bind_stable acceptAt_stable [OF assms] dest: halts_bindD)

lemma visitClassDeclaration_stable:
  assumes "extends accept accept'" and "halts (visitClassDeclaration accept c ctx)"
  shows "visitClassDeclaration accept' c ctx = visitClassDeclaration accept c ctx"
  using assms(2)
  unfolding visitClassDeclaration_def
  by (intro bind_stable)
     (auto simp: composite_stable [OF assms(1)] split: if_splits
        intro!: bind_stable acceptAll_stable [OF assms(1)] dest: halts_bindD)

lemma dispatch_extends:
  assumes "extends accept accept'"
  shows "extends (dispatch U accept) (dispatch U accept')"
  unfolding extends_def
proof (intro allI impI)
  fix t c
  assume "halts (dispatch U accept t c)"
  then show "dispatch U accept' t c = dispatch U accept t c"
    by (cases t)
       (simp_all add: dispatch_def visitClassDeclaration_stable [OF assms]
          visitField_stable [OF assms])
qed

lemma visit_extends: "extends (visit U fuel) (visit U (Suc fuel))"
proof (induction fuel)
  case 0
  show ?case by (simp add: extends_def)
next
  case (Suc fuel)
  from dispatch_extends [OF Suc, of U] show ?case
    by (simp only: visit_Suc)
qed

lemma visit_stable:
  assumes "halts (visit U fuel thing ctx)"
  shows "visit U (fuel + extra) thing ctx = visit U fuel thing ctx"
proof (induction extra)
  case 0
  show ?case by simp
next
  case (Suc extra)
  with assms have "halts (visit U (fuel + extra) thing ctx)" by simp
  from extendsD [OF visit_extends this] Suc show ?case by simp
qed

text \<open>
  C9, as amended. When no declaration is reachable from itself through the references
  the visitor follows (from a class that is not abstract to the concrete type resolved
  for each of its composite fields), \<^verbatim>\<open>visit\<close> terminates on every node and every
  context of that model: some depth of nesting suffices, and every greater depth gives
  the same outcome.
\<close>

theorem acyclic_terminates:
  assumes "acyclic (referenceGraph U (modelManager ctx))"
  shows "terminates U thing ctx
    \<and> (\<exists>fuel. halts (visit U fuel thing ctx)
          \<and> (\<forall>n\<ge>fuel. visit U n thing ctx = visit U fuel thing ctx))"
proof -
  let ?mm = "modelManager ctx"
  have declared: "\<exists>N. \<forall>n\<ge>N. ready (visit U n) ?mm (thing_of_declaration d)" for d
    by (rule declaration_ready [OF assms])
  have "\<exists>fuel. \<forall>n\<ge>fuel. ready (visit U n) ?mm thing"
  proof (cases thing)
    case (EnumDeclaration e)
    with declared [of "DEnum e"] show ?thesis by simp
  next
    case (ClassDeclaration c)
    with declared [of "DClass c"] show ?thesis by simp
  next
    case (Field f)
    from declared have
      "\<forall>d\<in>set (propertyReferences U ?mm (FieldDecl f)).
         \<exists>N. \<forall>n\<ge>N. ready (visit U n) ?mm (thing_of_declaration d)"
      by blast
    from bounded_all [OF this] obtain N where
      N: "\<forall>d\<in>set (propertyReferences U ?mm (FieldDecl f)).
            \<forall>n\<ge>N. ready (visit U n) ?mm (thing_of_declaration d)"
      by blast
    have "ready (visit U n) ?mm thing" if "n \<ge> Suc N" for n
    proof -
      from that obtain k where n: "n = Suc k" and k: "k \<ge> N"
        by (metis Suc_le_D Suc_le_mono)
      from N k have "\<forall>d\<in>set (propertyReferences U ?mm (FieldDecl f)).
            ready (visit U k) ?mm (thing_of_declaration d)"
        by blast
      from ready_property [OF visit_tidy this] Field show ?thesis
        by (simp only: n visit_Suc thing_of_property.simps)
    qed
    then show ?thesis by blast
  next
    case (RelationshipDeclaration r)
    have "ready (visit U n) ?mm thing" if "n \<ge> Suc 0" for n
    proof -
      from that obtain k where "n = Suc k"
        by (metis Suc_le_D)
      with RelationshipDeclaration show ?thesis
        by (simp add: ready_def dispatch_def visitRelationship_halts)
    qed
    then show ?thesis by blast
  next
    case (Other v)
    have "ready (visit U n) ?mm thing" if "n \<ge> Suc 0" for n
    proof -
      from that obtain k where "n = Suc k"
        by (metis Suc_le_D)
      with Other show ?thesis
        by (simp add: ready_def dispatch_def)
    qed
    then show ?thesis by blast
  qed
  then obtain fuel where enough: "halts (visit U fuel thing ctx)"
    by (auto simp: ready_def)
  have stable: "visit U n thing ctx = visit U fuel thing ctx" if "n \<ge> fuel" for n
    using visit_stable [OF enough, of "n - fuel"] that by simp
  from enough have "terminates U thing ctx"
    unfolding terminates_def halts_def by (rule exI)
  moreover from stable have "\<forall>n\<ge>fuel. visit U n thing ctx = visit U fuel thing ctx"
    by blast
  ultimately show ?thesis
    using enough by blast
qed

lemma treeModel_references:
  "references exampleHelpers treeModel (DClass nodeClass) = []"
  "references exampleHelpers treeModel (DClass branchClass) = [DClass nodeClass]"
  by (simp_all add: nodeClass_def branchClass_def treeModel_def fieldReferences_def
        exampleHelpers_def exampleProperty_def isPrimitive_def primitiveTypes_def
        getTypeDeclaration_def)

lemma treeModel_distinct: "DClass branchClass \<noteq> DClass nodeClass"
  by (simp add: nodeClass_def branchClass_def)

lemma treeModel_acyclic: "acyclic (referenceGraph exampleHelpers treeModel)"
proof (rule acyclicI_order)
  fix a b
  let ?rank = "\<lambda>d. if DClass branchClass \<in> set (references exampleHelpers treeModel d) then 2
                     else if DClass nodeClass \<in> set (references exampleHelpers treeModel d) then 1
                     else (0::nat)"
  assume "(a, b) \<in> referenceGraph exampleHelpers treeModel"
  then have edge: "b \<in> set (references exampleHelpers treeModel a)"
    by (simp add: referenceGraph_def)
  from references_in_model [OF this] have "b = DClass nodeClass \<or> b = DClass branchClass"
    by (auto simp: treeModel_def exampleHelpers_def)
  then show "?rank b < ?rank a"
    using edge treeModel_distinct by (auto simp: treeModel_references simp del: references.simps)
qed

theorem acyclic_terminates_witness:
  "acyclic (referenceGraph exampleHelpers (modelManager treeContext))
   \<and> terminates exampleHelpers (ClassDeclaration branchClass) treeContext"
proof -
  have mm: "modelManager treeContext = treeModel"
    by (simp add: treeContext_def emptyContext_def)
  have acyclic: "acyclic (referenceGraph exampleHelpers (modelManager treeContext))"
    unfolding mm by (rule treeModel_acyclic)
  from acyclic_terminates [OF acyclic, of "ClassDeclaration branchClass"] acyclic
  show ?thesis by blast
qed

lemma subclass_recursion:
  assumes "modelManager ctx = treeModel" and "\<not> hideIdentifiers ctx" and "hiddenFields ctx = None"
  shows "visit subclassHelpers n (ClassDeclaration branchClass) ctx = OutOfFuel
    \<and> visit subclassHelpers n (Field (exampleProperty ''child'' ''Node'' False)) ctx = OutOfFuel"
  using assms
proof (induction n arbitrary: ctx)
  case 0
  show ?case by simp
next
  case (Suc n)
  let ?c = "installFileWriter ctx"
  let ?child = "exampleProperty ''child'' ''Node'' False"
  have inv: "modelManager ?c = treeModel" "\<not> hideIdentifiers ?c" "hiddenFields ?c = None"
    using Suc.prems by (simp_all add: installFileWriter_def)
  have inv': "modelManager (push (Name (getName ?child)) ?c) = treeModel"
    "\<not> hideIdentifiers (push (Name (getName ?child)) ?c)"
    "hiddenFields (push (Name (getName ?child)) ?c) = None"
    using inv by (simp_all add: push_def)
  have field: "visit subclassHelpers n (Field ?child) ?c = OutOfFuel"
    using Suc.IH [OF inv] by simp
  have "visitClassDeclaration (visit subclassHelpers n) branchClass ?c = OutOfFuel"
    using inv field
    by (simp add: visitClassDeclaration_def recordIdentifier_def branchClass_def bind_def)
  moreover
  have "visit subclassHelpers n (ClassDeclaration branchClass) (push (Name (getName ?child)) ?c)
          = OutOfFuel"
    using Suc.IH [OF inv'] by simp
  then have "visitSingletonField subclassHelpers (visit subclassHelpers n) ?child
          (push (Name (getName ?child)) ?c) ps = OutOfFuel" for ps
    using inv'
    by (simp add: visitSingletonField_def Let_def isPrimitive_def primitiveTypes_def
          exampleProperty_def getTypeDeclaration_def treeModel_def subclassHelpers_def
          exampleHelpers_def nodeClass_def getDecorator_def bind_def)
  then have "visitField subclassHelpers (visit subclassHelpers n) ?child ?c = OutOfFuel"
    using inv
    by (simp add: visitField_def Let_def hideProperty_def subclassHelpers_def exampleHelpers_def
          bind_def)
       (simp add: exampleProperty_def)
  ultimately show ?case
    by (simp add: dispatch_def)
qed

lemma treeModel_declaredReferences:
  "declaredReferences treeModel (DClass nodeClass) = []"
  "declaredReferences treeModel (DClass branchClass) = [DClass nodeClass]"
  by (simp_all add: declaredReferences_def nodeClass_def branchClass_def treeModel_def
        exampleProperty_def primitiveTypes_def getTypeDeclaration_def)

lemma declaredReferences_in_model:
  "d' \<in> set (declaredReferences mm d) \<Longrightarrow> d' \<in> snd ` set mm"
  by (cases d)
     (force simp: declaredReferences_def getTypeDeclaration_def split: option.splits
        dest!: map_of_SomeD sym [of "Some _" "map_of _ _"])+

text \<open>
  C9, as stated, asks only that no class be reachable from itself through the declared
  types of fields and relationships. In the schema of \<open>Node\<close> and \<open>Branch\<close> the
  declared types give the single edge from \<open>Branch\<close> to \<open>Node\<close>; with \<open>Branch\<close>
  substituted for the abstract \<open>Node\<close>, visiting \<open>Branch\<close> visits its field, which
  visits \<open>Branch\<close> again, and no depth of nesting suffices.
\<close>

theorem subclass_cycle_counterexample:
  "acyclic (declaredGraph (modelManager treeContext))
   \<and> \<not> terminates subclassHelpers (ClassDeclaration branchClass) treeContext"
proof
  have mm: "modelManager treeContext = treeModel"
    by (simp add: treeContext_def emptyContext_def)
  show "acyclic (declaredGraph (modelManager treeContext))"
    unfolding mm
  proof (rule acyclicI_order)
    fix a b
    let ?rank = "\<lambda>d. if DClass branchClass \<in> set (declaredReferences treeModel d) then 2
                     else if DClass nodeClass \<in> set (declaredReferences treeModel d) then 1
                     else (0::nat)"
    assume "(a, b) \<in> declaredGraph treeModel"
    then have edge: "b \<in> set (declaredReferences treeModel a)"
      by (simp add: declaredGraph_def)
    from declaredReferences_in_model [OF this] have "b = DClass nodeClass \<or> b = DClass branchClass"
      by (auto simp: treeModel_def)
    then show "?rank b < ?rank a"
      using edge treeModel_distinct by (auto simp: treeModel_declaredReferences)
  qed
  have "visit subclassHelpers n (ClassDeclaration branchClass) treeContext = OutOfFuel" for n
    using subclass_recursion [of treeContext n]
    by (simp add: treeContext_def emptyContext_def)
  then show "\<not> terminates subclassHelpers (ClassDeclaration branchClass) treeContext"
    by (simp add: terminates_def)
qed

section \<open>The skip-label flag around composite widgets\<close>

lemma quiet_simps [simp]:
  "quiet (Returns a c) ctx = sameFlag ctx c" "quiet (Throws e c) ctx" "quiet OutOfFuel ctx"
  by (simp_all add: quiet_def)

lemma sameFlag_simps [simp]:
  "sameFlag ctx ctx"
  "sameFlag a (push s b) = sameFlag a b" "sameFlag (push s a) b = sameFlag a b"
  "sameFlag a (pop b) = sameFlag a b" "sameFlag (pop a) b = sameFlag a b"
  "sameFlag a (installFileWriter b) = sameFlag a b" "sameFlag (installFileWriter a) b = sameFlag a b"
  by (simp_all add: sameFlag_def push_def pop_def installFileWriter_def)

lemma sameFlag_trans: "sameFlag a b \<Longrightarrow> sameFlag b c \<Longrightarrow> sameFlag a c"
  by (simp add: sameFlag_def)

lemma quiet_bind:
  "quiet m ctx \<Longrightarrow> (\<And>a c. m = Returns a c \<Longrightarrow> sameFlag ctx c \<Longrightarrow> quiet (f a c) ctx)
   \<Longrightarrow> quiet (bind m f) ctx"
  by (cases m) (simp_all add: bind_def)

lemma quiet_from: "quiet m c \<Longrightarrow> sameFlag ctx c \<Longrightarrow> quiet m ctx"
  by (cases m) (auto intro: sameFlag_trans)

lemma visitSingletonField_quiet:
  assumes "\<forall>d\<in>set (fieldReferences U (modelManager ctx) f).
             \<forall>c. quiet (accept (thing_of_declaration d) c) c"
  shows "quiet (visitSingletonField U accept f ctx ps) ctx"
proof (cases "isPrimitive f")
  case True
  then show ?thesis
    by (simp add: visitSingletonField_def Let_def split: option.split selectorEntry.split)
next
  case False
  show ?thesis
  proof (cases "getTypeDeclaration (modelManager ctx) (getFullyQualifiedTypeName f)")
    case None
    with False show ?thesis by (simp add: visitSingletonField_def Let_def)
  next
    case (Some declared)
    show ?thesis
    proof (cases "findConcreteSubclass U declared")
      case (Inl msg)
      with False Some show ?thesis by (simp add: visitSingletonField_def Let_def)
    next
      case (Inr type)
      with False Some assms have "quiet (accept (thing_of_declaration type) ctx) ctx"
        by (simp add: fieldReferences_def)
      with False Some Inr show ?thesis
        by (simp add: visitSingletonField_def Let_def quiet_bind)
    qed
  qed
qed

lemma visitFieldElements_quiet:
  assumes "\<forall>d\<in>set (fieldReferences U mm f). \<forall>c. quiet (accept (thing_of_declaration d) c) c"
    and "modelManager ctx = mm"
  shows "quiet (visitFieldElements U accept f ps is ctx) ctx"
  using assms(2)
proof (induction "is" arbitrary: ctx)
  case Nil
  show ?case by simp
next
  case (Cons i "is")
  have "quiet (visitSingletonField U accept f (push (Index i) ctx) ps) (push (Index i) ctx)"
    using assms(1) Cons.prems by (intro visitSingletonField_quiet) (simp add: push_def)
  then have first: "quiet (visitSingletonField U accept f (push (Index i) ctx) ps) ctx"
    by (rule quiet_from) simp
  show ?case
    unfolding visitFieldElements.simps
  proof (rule quiet_bind [OF first])
    fix inner c
    assume q: "sameFlag ctx c"
    with Cons.prems have "modelManager (pop c) = mm"
      by (simp add: sameFlag_def pop_def)
    from Cons.IH [OF this] have "quiet (visitFieldElements U accept f ps is (pop c)) ctx"
      by (rule quiet_from) (simp add: q)
    then show "quiet (bind (visitFieldElements U accept f ps is (pop c))
            (\<lambda>others ctx''.
               Returns
                 (Element ConcertoArrayElement
                    (JStr (getName f @ ''_wrapper['' @ show_nat i @ '']''))
                    (ps @ [(''index'', PVal (JNum (int i)))]) [inner] # others)
                 ctx'')) ctx"
      by (rule quiet_bind) simp
  qed
qed

lemma mapValue_quiet:
  "(\<And>is. quiet (callback is ctx) ctx) \<Longrightarrow> quiet (mapValue v callback ctx) ctx"
  by (auto simp: mapValue_def split: jsval.split intro!: quiet_bind)

lemma visitField_quiet:
  assumes "\<forall>d\<in>set (fieldReferences U (modelManager ctx) f).
             \<forall>c. quiet (accept (thing_of_declaration d) c) c"
  shows "quiet (visitField U accept f ctx) ctx"
proof -
  let ?c = "push (Name (getName f)) ctx"
  have mm: "modelManager ?c = modelManager ctx"
    by (simp add: push_def)
  have "quiet (visitSingletonField U accept f ?c ps) ?c" for ps
    using visitSingletonField_quiet [of U ?c f accept ps] assms by (simp add: mm)
  then have single: "quiet (visitSingletonField U accept f ?c ps) ctx" for ps
    by (rule quiet_from) simp
  have "quiet (visitFieldElements U accept f ps is ?c) ?c" for ps "is"
    by (rule visitFieldElements_quiet [OF assms mm])
  then have "quiet (mapValue v (visitFieldElements U accept f ps) ?c) ?c" for v ps
    by (rule mapValue_quiet)
  then have loop: "quiet (mapValue v (visitFieldElements U accept f ps) ?c) ctx" for v ps
    by (rule quiet_from) simp
  show ?thesis
    unfolding visitField_def Let_def
    by (auto intro!: quiet_bind single loop)
qed

lemma visitRelationship_quiet: "quiet (visitRelationship U r ctx) ctx"
  by (auto simp: visitRelationship_def Let_def visitRelationshipElements_closed mapValue_def
        split: sum.split jsval.split intro!: quiet_bind)

lemma enum_quiet: "quiet (visit U fuel (EnumDeclaration e) c) c"
  by (cases fuel) (simp_all add: dispatch_def visitEnumDeclaration_def Let_def)

lemma leafProperty_quiet:
  assumes "leafProperty U (modelManager ctx) p"
  shows "quiet (visit U fuel (thing_of_property p) ctx) ctx"
proof (cases fuel)
  case 0
  show ?thesis by (simp add: 0)
next
  case (Suc n)
  let ?c = "installFileWriter ctx"
  show ?thesis
  proof (cases p)
    case (RelationshipDecl r)
    with Suc show ?thesis
      using quiet_from [OF visitRelationship_quiet [of U r ?c], of ctx]
      by (simp add: dispatch_def)
  next
    case (FieldDecl f)
    have "\<forall>d\<in>set (fieldReferences U (modelManager ?c) f).
             \<forall>c. quiet (visit U n (thing_of_declaration d) c) c"
    proof
      fix d assume "d \<in> set (fieldReferences U (modelManager ?c) f)"
      with assms FieldDecl obtain e where "d = DEnum e"
        by (cases d) (auto simp: list_all_iff)
      then show "\<forall>c. quiet (visit U n (thing_of_declaration d) c) c"
        by (simp add: enum_quiet)
    qed
    from quiet_from [OF visitField_quiet [OF this], of ctx] FieldDecl Suc show ?thesis
      by (simp add: dispatch_def)
  qed
qed

text \<open>
  C4, as amended. Each of \<^verbatim>\<open>visitMonetaryAmount\<close>, \<^verbatim>\<open>visitDuration\<close> and
  \<^verbatim>\<open>visitAccordParty\<close> sets the skip-label flag to true before it visits the first
  sub-property, whatever the flag is at entry: the sub-widgets it returns are those the
  first sub-property gives in the context with the flag true and the second one gives in
  the context the first one left. A sub-property that is a relationship, a primitive
  field or an enumeration-typed field leaves the flag as it found it, so the flag is
  true while such sub-properties are rendered. After rendering the flag is set to
  false, not to its value at entry.
\<close>

theorem composite_skipLabel:
  "(0 < length (getProperties classDeclaration) \<longrightarrow>
    accept (thing_of_property (getProperties classDeclaration ! 0)) (ctx\<lparr>skipLabel := True\<rparr>)
      = Returns first afterFirst \<longrightarrow>
      (visitAccordParty accept classDeclaration ctx
         = Returns (Element Div (JStr (toLowerCase (className classDeclaration))) [] [first])
             (afterFirst\<lparr>skipLabel := False\<rparr>))
      \<and> (1 < length (getProperties classDeclaration) \<longrightarrow>
           accept (thing_of_property (getProperties classDeclaration ! 1)) afterFirst
             = Returns second afterSecond \<longrightarrow>
           visitMonetaryAmount accept classDeclaration ctx
             = Returns
                 (Element MonetaryAmount (JStr (toLowerCase (className classDeclaration))) []
                    [first, second])
                 (afterSecond\<lparr>skipLabel := False\<rparr>)
           \<and> visitDuration accept classDeclaration ctx
             = Returns
                 (Element Duration (JStr (toLowerCase (className classDeclaration))) []
                    [first, second])
                 (afterSecond\<lparr>skipLabel := False\<rparr>)))
   \<and> (leafProperty U (modelManager c) p \<longrightarrow>
        visit U fuel (thing_of_property p) c = Returns widget c' \<longrightarrow> skipLabel c' = skipLabel c)
   \<and> (visitMonetaryAmount accept classDeclaration ctx = Returns component ctx' \<longrightarrow> skipLabel ctx' = False)
   \<and> (visitDuration accept classDeclaration ctx = Returns component ctx' \<longrightarrow> skipLabel ctx' = False)
   \<and> (visitAccordParty accept classDeclaration ctx = Returns component ctx' \<longrightarrow> skipLabel ctx' = False)
   \<and> visitMonetaryAmount accept classDeclaration (ctx\<lparr>skipLabel := entry\<rparr>)
       = visitMonetaryAmount accept classDeclaration (ctx\<lparr>skipLabel := True\<rparr>)
   \<and> visitDuration accept classDeclaration (ctx\<lparr>skipLabel := entry\<rparr>)
       = visitDuration accept classDeclaration (ctx\<lparr>skipLabel := True\<rparr>)
   \<and> visitAccordParty accept classDeclaration (ctx\<lparr>skipLabel := entry\<rparr>)
       = visitAccordParty accept classDeclaration (ctx\<lparr>skipLabel := True\<rparr>)"
proof -
  have leaf: "skipLabel c' = skipLabel c"
    if "leafProperty U (modelManager c) p" "visit U fuel (thing_of_property p) c = Returns widget c'"
    using leafProperty_quiet [OF that(1), of fuel] that(2) by (simp add: sameFlag_def)
  show ?thesis
    using leaf
    by (auto simp: visitMonetaryAmount_def visitDuration_def visitAccordParty_def bind_def Let_def
          acceptAt_def split: outcome.splits)
qed


theorem composite_skipLabel_witness:
  "(\<exists>first second.
      visit exampleHelpers (Suc 0) (Field (exampleProperty ''doubleValue'' ''Double'' False))
          (emptyContext\<lparr>skipLabel := True\<rparr>)
        = Returns first (emptyContext\<lparr>skipLabel := True, fileWriter := Some new_Writer\<rparr>)
      \<and> visit exampleHelpers (Suc 0) (Field (exampleProperty ''currencyCode'' ''String'' False))
          (emptyContext\<lparr>skipLabel := True, fileWriter := Some new_Writer\<rparr>)
        = Returns second (emptyContext\<lparr>skipLabel := True, fileWriter := Some new_Writer\<rparr>)
      \<and> elementProp first ''skipLabel'' = Some (PVal (JBool True))
      \<and> elementProp second ''skipLabel'' = Some (PVal (JBool True))
      \<and> visitMonetaryAmount (visit exampleHelpers (Suc 0)) monetaryAmount emptyContext
        = Returns (Element MonetaryAmount (JStr ''monetaryamount'') [] [first, second])
            (emptyContext\<lparr>skipLabel := False, fileWriter := Some new_Writer\<rparr>))
   \<and> (\<exists>component ctx'.
      visitDuration (visit exampleHelpers (Suc 0)) durationClass emptyContext
        = Returns component ctx' \<and> skipLabel ctx' = False)
   \<and> (\<exists>component ctx'.
      visitAccordParty (visit exampleHelpers (Suc 0)) accordParty emptyContext
        = Returns component ctx' \<and> skipLabel ctx' = False)"
proof -
  let ?accept = "visit exampleHelpers (Suc 0)"
  let ?dv = "exampleProperty ''doubleValue'' ''Double'' False"
  let ?cc = "exampleProperty ''currencyCode'' ''String'' False"
  let ?c0 = "emptyContext\<lparr>skipLabel := True\<rparr>"
  let ?c1 = "emptyContext\<lparr>skipLabel := True, fileWriter := Some new_Writer\<rparr>"
  have props: "0 < length (getProperties monetaryAmount)" "1 < length (getProperties monetaryAmount)"
    "thing_of_property (getProperties monetaryAmount ! 0) = Field ?dv"
    "thing_of_property (getProperties monetaryAmount ! 1) = Field ?cc"
    by (simp_all add: monetaryAmount_def)
  have lower: "toLowerCase (className monetaryAmount) = ''monetaryamount''"
    by code_simp
  have "\<exists>first. ?accept (Field ?dv) ?c0 = Returns first ?c1
          \<and> elementProp first ''skipLabel'' = Some (PVal (JBool True))"
    by (simp add: elementProp_def evaluate)
  then obtain first where a: "?accept (Field ?dv) ?c0 = Returns first ?c1"
    and fp: "elementProp first ''skipLabel'' = Some (PVal (JBool True))"
    by blast
  have "\<exists>second. ?accept (Field ?cc) ?c1 = Returns second ?c1
          \<and> elementProp second ''skipLabel'' = Some (PVal (JBool True))"
    by (simp add: elementProp_def evaluate)
  then obtain second where b: "?accept (Field ?cc) ?c1 = Returns second ?c1"
    and sp: "elementProp second ''skipLabel'' = Some (PVal (JBool True))"
    by blast
  note built = composite_skipLabel [where accept = "?accept" and classDeclaration = monetaryAmount
      and ctx = emptyContext and first = first and afterFirst = "?c1" and second = second and afterSecond = "?c1",
      THEN conjunct1, rule_format, OF props(1) a [folded props(3)], THEN conjunct2, rule_format,
      OF props(2) b [folded props(4)], THEN conjunct1, unfolded lower]
  have leaf: "leafProperty exampleHelpers (modelManager ?c0) (FieldDecl ?dv)"
    by (simp add: fieldReferences_def evaluate)
  have kept: "skipLabel ?c1 = skipLabel ?c0"
    using composite_skipLabel [where U = exampleHelpers and c = "?c0" and p = "FieldDecl ?dv"
        and fuel = "Suc 0" and widget = first and c' = "?c1",
        THEN conjunct2, THEN conjunct1, rule_format, OF leaf] a
    by (simp only: thing_of_property.simps)
  have monetary: "visitMonetaryAmount ?accept monetaryAmount emptyContext
        = Returns (Element MonetaryAmount (JStr ''monetaryamount'') [] [first, second])
            (emptyContext\<lparr>skipLabel := False, fileWriter := Some new_Writer\<rparr>)"
    using built by (simp add: emptyContext_def)
  obtain d c2 where dur: "visitDuration ?accept durationClass emptyContext = Returns d c2"
    by (simp add: durationClass_def evaluate)
  obtain q c3 where party: "visitAccordParty ?accept accordParty emptyContext = Returns q c3"
    by (simp add: accordParty_def evaluate)
  have "skipLabel c2 = False"
    using composite_skipLabel [where accept = "?accept" and classDeclaration = durationClass
        and ctx = emptyContext and component = d and ctx' = c2,
        THEN conjunct2, THEN conjunct2, THEN conjunct2, THEN conjunct1] dur
    by simp
  moreover have "skipLabel c3 = False"
    using composite_skipLabel [where accept = "?accept" and classDeclaration = accordParty
        and ctx = emptyContext and component = q and ctx' = c3,
        THEN conjunct2, THEN conjunct2, THEN conjunct2, THEN conjunct2, THEN conjunct1] party
    by simp
  ultimately show ?thesis
    using a b fp sp monetary dur party by blast
qed

text \<open>
  C4, as stated, asks the flag at exit to equal the flag at entry, and the flag to be
  true for the whole rendering of the sub-properties. Entered with the flag true,
  \<^verbatim>\<open>visitMonetaryAmount\<close> returns with the flag false. And when the first
  sub-property is itself of the duration type, \<^verbatim>\<open>visitDuration\<close> has set the flag
  to false before the second sub-property is rendered, whose widget then has the skip
  label false.
\<close>

theorem skipLabel_not_restored_counterexample:
  "skipLabel (emptyContext\<lparr>skipLabel := True\<rparr>) = True
   \<and> map_option skipLabel
        (returnedContext
           (visitMonetaryAmount (visit exampleHelpers (Suc 0)) monetaryAmount
              (emptyContext\<lparr>skipLabel := True\<rparr>)))
       = Some False
   \<and> map (\<lambda>w. elementProp w ''skipLabel'')
        (subWidgets
           (visitMonetaryAmount (visit exampleHelpers (Suc (Suc (Suc 0)))) nestedAmount nestedContext))
       = [None, Some (PVal (JBool False))]"
  by (simp add: returnedContext_def subWidgets_def elementProp_def monetaryAmount_def
        nestedAmount_def nestedContext_def durationClass_def evaluate)

end
